theory Spec2Isabelle
  imports Complex_Main
begin

section \<open>ChatWave: the NLP engine, the route planner and the chat service\<close>

text \<open>
  The development follows three source files: the NLP engine (\<^verbatim>\<open>server/src/nlp/engine.js\<close>),
  the route planner (\<^verbatim>\<open>routePlanner.js\<close>) and the chat service (\<^verbatim>\<open>chatService.js\<close>).
  JavaScript strings are modelled as \<^typ>\<open>string\<close>; a \<^typ>\<open>char\<close> stands for a UTF-16 code
  unit below 256. An object literal used as a table is the list of its own entries, and a read
  of it by a computed key also finds what every object inherits from \<^verbatim>\<open>Object.prototype\<close>.
  Numbers are exact rationals, with \<^verbatim>\<open>NaN\<close> beside them where the code can produce it. What the JavaScript runtime and the collaborators supply
  (the clock, \<^verbatim>\<open>Math.random\<close>, the route lookup, the SQL layer) is a parameter of the model.
\<close>

subsection \<open>Strings\<close>

definition code_unit :: "char \<Rightarrow> nat" where
  "code_unit c = of_char c"

definition is_upper :: "char \<Rightarrow> bool" where
  "is_upper c = (let n = code_unit c in (65 \<le> n \<and> n \<le> 90) \<or> (192 \<le> n \<and> n \<le> 222 \<and> n \<noteq> 215))"

definition toLower :: "char \<Rightarrow> char" where
  "toLower c = (if is_upper c then char_of (code_unit c + 32) else c)"

definition toLowerCase :: "string \<Rightarrow> string" where
  "toLowerCase s = map toLower s"

definition is_space :: "char \<Rightarrow> bool" where
  "is_space c = (code_unit c \<in> {9, 10, 11, 12, 13, 32, 160})"

definition is_digit :: "char \<Rightarrow> bool" where
  "is_digit c = (48 \<le> code_unit c \<and> code_unit c \<le> 57)"

definition is_alpha :: "char \<Rightarrow> bool" where
  "is_alpha c = (let n = code_unit c in (65 \<le> n \<and> n \<le> 90) \<or> (97 \<le> n \<and> n \<le> 122))"

definition is_word :: "char \<Rightarrow> bool" where
  "is_word c = (is_alpha c \<or> is_digit c \<or> c = CHR ''_'')"

definition trim :: "string \<Rightarrow> string" where
  "trim s = rev (dropWhile is_space (rev (dropWhile is_space s)))"

text \<open>\<^verbatim>\<open>s.includes(sub)\<close>: \<open>sub\<close> occurs in \<open>s\<close> as a contiguous substring.\<close>

fun str_includes :: "string \<Rightarrow> string \<Rightarrow> bool" where
  "str_includes [] sub = (sub = [])"
| "str_includes (c # s) sub = (take (length sub) (c # s) = sub \<or> str_includes s sub)"

text \<open>The digits of a number, for \<^verbatim>\<open>parseInt\<close> and for \<^verbatim>\<open>n.toString()\<close> on a natural number.\<close>

definition digit_val :: "char \<Rightarrow> nat" where
  "digit_val c = code_unit c - 48"

definition is_hex :: "char \<Rightarrow> bool" where
  "is_hex c = (is_digit c \<or> (let n = code_unit c in (65 \<le> n \<and> n \<le> 70) \<or> (97 \<le> n \<and> n \<le> 102)))"

definition hex_val :: "char \<Rightarrow> nat" where
  "hex_val c = (let n = code_unit c in if n \<le> 57 then n - 48 else if n \<le> 70 then n - 55 else n - 87)"

definition number_of :: "nat \<Rightarrow> (char \<Rightarrow> nat) \<Rightarrow> string \<Rightarrow> int option" where
  "number_of radix val ds =
     (if ds = [] then None else Some (int (foldl (\<lambda>n c. radix * n + val c) 0 ds)))"

definition unsigned :: "string \<Rightarrow> int option" where
  "unsigned s =
     (if take 2 (map toLower s) = ''0x'' then number_of 16 hex_val (takeWhile is_hex (drop 2 s))
      else number_of 10 digit_val (takeWhile is_digit s))"

text \<open>\<^verbatim>\<open>parseInt(s)\<close>; \<open>None\<close> is \<^verbatim>\<open>NaN\<close>.\<close>

definition parseInt :: "string \<Rightarrow> int option" where
  "parseInt s =
     (case dropWhile is_space s of
        [] \<Rightarrow> None
      | c # rest \<Rightarrow>
          if c = CHR ''-'' then map_option uminus (unsigned rest)
          else if c = CHR ''+'' then unsigned rest
          else unsigned (c # rest))"

fun digits_of :: "nat \<Rightarrow> nat \<Rightarrow> string" where
  "digits_of 0 n = []"
| "digits_of (Suc k) n =
     (if n < 10 then [char_of (48 + n)] else digits_of k (n div 10) @ [char_of (48 + n mod 10)])"

definition toString :: "nat \<Rightarrow> string" where
  "toString n = digits_of (Suc n) n"

definition padStart2 :: "string \<Rightarrow> string" where
  "padStart2 s = replicate (2 - length s) CHR ''0'' @ s"

subsection \<open>Regular expressions\<close>

text \<open>
  The patterns of the engine are matched by \<^verbatim>\<open>RegExp.prototype.test\<close> and
  \<^verbatim>\<open>String.prototype.match\<close>. The matcher below is the backtracking matcher of the
  language: for a pattern and a position it returns every way to match, in the order in which
  backtracking tries them, so the head of the list is the match JavaScript reports. A state is
  the text before the position (reversed), the text after it, and the captured groups. Every
  pattern of the engine carries the flag \<^verbatim>\<open>i\<close>, so letters are compared up to case.
  A repetition never repeats an empty match, so it runs at most as many rounds as characters
  remain.
\<close>

datatype rx = Eps | Chr char | Digit | WordCh | Space | AnyCh | Alpha
  | Seq rx rx | Alt rx rx | Star rx | LazyStar rx | Cap nat rx | Bol | Eol | WordB

type_synonym mstate = "string \<times> string \<times> (nat \<times> string) list"

fun atom :: "(char \<Rightarrow> bool) \<Rightarrow> mstate \<Rightarrow> mstate list" where
  "atom p (pre, [], cs) = []"
| "atom p (pre, c # rest, cs) = (if p c then [(c # pre, rest, cs)] else [])"

fun remaining :: "mstate \<Rightarrow> nat" where
  "remaining (pre, rest, cs) = length rest"

primrec star_iter :: "nat \<Rightarrow> (mstate \<Rightarrow> mstate list) \<Rightarrow> bool \<Rightarrow> mstate \<Rightarrow> mstate list" where
  "star_iter 0 step greedy x = [x]"
| "star_iter (Suc n) step greedy x =
     (let more = concat (map (star_iter n step greedy)
                   (filter (\<lambda>y. remaining y < remaining x) (step x)))
      in if greedy then more @ [x] else x # more)"

fun at_boundary :: "mstate \<Rightarrow> bool" where
  "at_boundary (pre, rest, cs) =
     ((case pre of [] \<Rightarrow> False | a # _ \<Rightarrow> is_word a) \<noteq> (case rest of [] \<Rightarrow> False | b # _ \<Rightarrow> is_word b))"

fun capture :: "nat \<Rightarrow> mstate \<Rightarrow> mstate \<Rightarrow> mstate" where
  "capture n (pre, rest, cs) (pre', rest', cs') =
     (pre', rest', (n, take (length rest - length rest') rest) # cs')"

primrec matches :: "rx \<Rightarrow> mstate \<Rightarrow> mstate list" where
  "matches Eps x = [x]"
| "matches (Chr c) x = atom (\<lambda>d. toLower d = toLower c) x"
| "matches Digit x = atom is_digit x"
| "matches WordCh x = atom is_word x"
| "matches Space x = atom is_space x"
| "matches AnyCh x = atom (\<lambda>d. code_unit d \<noteq> 10 \<and> code_unit d \<noteq> 13) x"
| "matches Alpha x = atom is_alpha x"
| "matches (Seq r1 r2) x = concat (map (matches r2) (matches r1 x))"
| "matches (Alt r1 r2) x = matches r1 x @ matches r2 x"
| "matches (Star r) x = star_iter (remaining x) (matches r) True x"
| "matches (LazyStar r) x = star_iter (remaining x) (matches r) False x"
| "matches (Cap n r) x = map (capture n x) (matches r x)"
| "matches Bol x = (if fst x = [] then [x] else [])"
| "matches Eol x = (if fst (snd x) = [] then [x] else [])"
| "matches WordB x = (if at_boundary x then [x] else [])"

text \<open>The leftmost position at which the pattern matches, and the first match there.\<close>

fun search :: "rx \<Rightarrow> string \<Rightarrow> string \<Rightarrow> mstate option" where
  "search r pre [] = (case matches r (pre, [], []) of [] \<Rightarrow> None | y # _ \<Rightarrow> Some y)"
| "search r pre (c # rest) =
     (case matches r (pre, c # rest, []) of [] \<Rightarrow> search r (c # pre) rest | y # _ \<Rightarrow> Some y)"

definition rx_test :: "rx \<Rightarrow> string \<Rightarrow> bool" where
  "rx_test r s = (search r [] s \<noteq> None)"

text \<open>\<^verbatim>\<open>s.match(r)\<close>: the captured groups of the first match (a group that took no part is absent).\<close>

definition rx_match :: "rx \<Rightarrow> string \<Rightarrow> (nat \<rightharpoonup> string) option" where
  "rx_match r s = (case search r [] s of None \<Rightarrow> None | Some (pre, rest, cs) \<Rightarrow> Some (map_of cs))"

definition lit :: "string \<Rightarrow> rx" where
  "lit s = foldr (\<lambda>c r. Seq (Chr c) r) s Eps"

fun alts :: "rx list \<Rightarrow> rx" where
  "alts [] = Eps"
| "alts [r] = r"
| "alts (r # rs) = Alt r (alts rs)"

definition seqs :: "rx list \<Rightarrow> rx" where
  "seqs rs = foldr Seq rs Eps"

definition words :: "string list \<Rightarrow> rx" where
  "words ws = alts (map lit ws)"

definition opt :: "rx \<Rightarrow> rx" where
  "opt r = Alt r Eps"

definition plus_rx :: "rx \<Rightarrow> rx" where
  "plus_rx r = Seq r (Star r)"

definition lazy_plus :: "rx \<Rightarrow> rx" where
  "lazy_plus r = Seq r (LazyStar r)"

text \<open>\<^verbatim>\<open>\s*\<close>, \<^verbatim>\<open>\s+\<close> and \<^verbatim>\<open>x\s*y\<close>.\<close>

definition sp :: rx where
  "sp = Star Space"

definition sp1 :: rx where
  "sp1 = plus_rx Space"

definition spaced :: "string list \<Rightarrow> rx" where
  "spaced ws = (case ws of [] \<Rightarrow> Eps | w # rest \<Rightarrow> seqs (lit w # concat (map (\<lambda>v. [sp, lit v]) rest)))"

text \<open>\<^verbatim>\<open>\b(...)\b\<close> around a list of alternatives.\<close>

definition bounded :: "rx list \<Rightarrow> rx" where
  "bounded rs = seqs [WordB, alts rs, WordB]"

subsection \<open>JavaScript values and entity records\<close>

text \<open>
  The values an entity slot holds: a string (city, mode, date, seat class, budget preference),
  a time range \<^verbatim>\<open>{start, end, label}\<close> (its \<^verbatim>\<open>end\<close> may be \<^verbatim>\<open>null\<close>),
  \<^verbatim>\<open>null\<close> or \<^verbatim>\<open>undefined\<close>, and a member of \<^verbatim>\<open>Object.prototype\<close>, named by its key
  (under \<^verbatim>\<open>constructor\<close> it is the function \<^verbatim>\<open>Object\<close>), which a read of the city table can
  return. An entity record is an object: a map from keys to values. Its slots are read by the
  seven fixed keys, none of which is inherited.
\<close>

datatype jsval = JUndefined | JNull | JStr string | JTime string "string option" string
  | JInherited string

type_synonym entities = "string \<rightharpoonup> jsval"

text \<open>The truth value JavaScript gives a value in a condition, and a property read \<^verbatim>\<open>e.k\<close>.\<close>

fun truthy :: "jsval \<Rightarrow> bool" where
  "truthy JUndefined = False"
| "truthy JNull = False"
| "truthy (JStr s) = (s \<noteq> [])"
| "truthy (JTime st en lb) = True"
| "truthy (JInherited name) = True"

definition field :: "entities \<Rightarrow> string \<Rightarrow> jsval" where
  "field e k = (case e k of None \<Rightarrow> JUndefined | Some v \<Rightarrow> v)"

text \<open>
  The read \<^verbatim>\<open>table[key]\<close> of an object literal: the table's own entry or, when it has none,
  the member of that name that the object inherits from \<^verbatim>\<open>Object.prototype\<close>. The
  inherited members are functions, and \<^verbatim>\<open>__proto__\<close> is the prototype object itself.
\<close>

definition Object_prototype :: "string list" where
  "Object_prototype =
    [''constructor'', ''__defineGetter__'', ''__defineSetter__'', ''hasOwnProperty'',
     ''__lookupGetter__'', ''__lookupSetter__'', ''isPrototypeOf'', ''propertyIsEnumerable'',
     ''toString'', ''valueOf'', ''__proto__'', ''toLocaleString'']"

datatype 'a property = Own 'a | Inherited string | Absent

definition property_of :: "(string \<times> 'a) list \<Rightarrow> string \<Rightarrow> 'a property" where
  "property_of table key =
     (case map_of table key of
        Some v \<Rightarrow> Own v
      | None \<Rightarrow> if key \<in> set Object_prototype then Inherited key else Absent)"

subsection \<open>Intents and their patterns (engine.js)\<close>

datatype intent = TRAVEL_SEARCH | GREETING | HELP | ROUTE_PREFERENCE | SCHEDULE_QUERY
  | PRICE_QUERY | COMPARE_ROUTES | SELECT_ROUTE | GOODBYE | THANKS | UNKNOWN

definition greeting_patterns :: "rx list" where
  "greeting_patterns =
    [seqs [Bol, alts [lit ''hi'', lit ''hello'', lit ''hey'', lit ''howdy'', lit ''hola'',
        seqs [lit ''good'', sp, words [''morning'', ''afternoon'', ''evening'', ''day'']],
        lit ''namaste'', lit ''namaskar'']],
     seqs [Bol, alts [seqs [lit ''what'', opt (Chr (CHR 0x27)), opt (Chr CHR ''s''), sp, lit ''up''],
        lit ''yo'', lit ''sup'']]]"

definition goodbye_patterns :: "rx list" where
  "goodbye_patterns =
    [bounded [lit ''bye'', lit ''goodbye'', spaced [''see'', ''you''], spaced [''take'', ''care''],
        lit ''ciao'', lit ''later'', lit ''ttyl'']]"

definition thanks_patterns :: "rx list" where
  "thanks_patterns =
    [bounded [seqs [lit ''thank'', opt (Chr CHR ''s'')], spaced [''thank'', ''you''], lit ''thx'',
        lit ''ty'', lit ''appreciate'', lit ''grateful'', lit ''dhanyavaad'']]"

definition help_patterns :: "rx list" where
  "help_patterns =
    [bounded [lit ''help'', lit ''assist'', lit ''support'',
        seqs [lit ''how'', sp, words [''do'', ''can'', ''to'']],
        spaced [''what'', ''can'', ''you''], lit ''guide'', lit ''tutorial''],
     seqs [WordB, lit ''what'', sp, words [''do'', ''can''], sp, lit ''you'', sp, lit ''do'', WordB]]"

definition price_patterns :: "rx list" where
  "price_patterns =
    [bounded [spaced [''how'', ''much''], lit ''price'', lit ''cost'', lit ''fare'', lit ''charge'',
        lit ''rate'', spaced [''ticket'', ''price''], lit ''expensive'', lit ''cheap'', lit ''budget'']]"

definition schedule_patterns :: "rx list" where
  "schedule_patterns =
    [bounded [lit ''when'', spaced [''what'', ''time''], lit ''schedule'', lit ''timing'',
        lit ''departure'', lit ''arrival'', seqs [lit ''next'', sp, words [''train'', ''bus'']],
        lit ''timetable'']]"

definition compare_patterns :: "rx list" where
  "compare_patterns =
    [bounded [lit ''compare'', lit ''comparison'', lit ''difference'', lit ''vs'', lit ''versus'',
        seqs [lit ''which'', sp, lit ''is'', sp, words [''better'', ''faster'', ''cheaper'']],
        lit ''between'']]"

definition select_patterns :: "rx list" where
  "select_patterns =
    [bounded [lit ''select'', lit ''choose'', lit ''book'', lit ''pick'', spaced [''go'', ''with''],
        seqs [lit ''option'', sp, Digit],
        seqs [lit ''i'', alts [seqs [Chr (CHR 0x27), lit ''ll''], seqs [sp, lit ''will'']], sp,
              alts [lit ''take'', lit ''choose'', spaced [''go'', ''with'']]]],
     seqs [WordB, alts [lit ''number'', Chr CHR ''#''], sp, Digit, WordB]]"

definition preference_patterns :: "rx list" where
  "preference_patterns =
    [bounded [lit ''prefer'', lit ''want'', spaced [''looking'', ''for''],
        seqs [lit ''need'', sp, opt (Chr CHR ''a'')], lit ''fastest'', lit ''cheapest'',
        lit ''quickest'', lit ''comfortable'', lit ''direct'']]"

definition travel_patterns :: "rx list" where
  "travel_patterns =
    [seqs [WordB, alts [lit ''travel'', lit ''go'', lit ''going'', lit ''trip'', lit ''journey'',
        lit ''route'', lit ''from'',
        seqs [lit ''to'', WordB, Star AnyCh, WordB, lit ''to'', WordB],
        lit ''book'',
        seqs [lit ''find'', sp, opt (seqs [lit ''a'', sp]),
              words [''bus'', ''train'', ''route'', ''trip'']]]],
     seqs [WordB, words [''bus'', ''train'', ''flight''], sp, words [''from'', ''to'', ''between''], WordB],
     seqs [WordB, lit ''from'', sp1, plus_rx WordCh, sp1, lit ''to'', sp1, plus_rx WordCh],
     seqs [WordB, lit ''i'', sp, words [''want'', ''need'', ''have''], sp, lit ''to'', sp,
           alts [lit ''go'', lit ''travel'', lit ''reach'', lit ''visit'', spaced [''get'', ''to'']], WordB],
     seqs [WordB, lit ''take'', sp, lit ''me'', sp, words [''to'', ''from''], WordB]]"

text \<open>The table in the order of its keys, which is the order \<^verbatim>\<open>Object.entries\<close> gives.\<close>

definition INTENT_PATTERNS :: "(intent \<times> rx list) list" where
  "INTENT_PATTERNS =
    [(GREETING, greeting_patterns), (GOODBYE, goodbye_patterns), (THANKS, thanks_patterns),
     (HELP, help_patterns), (PRICE_QUERY, price_patterns), (SCHEDULE_QUERY, schedule_patterns),
     (COMPARE_ROUTES, compare_patterns), (SELECT_ROUTE, select_patterns),
     (ROUTE_PREFERENCE, preference_patterns), (TRAVEL_SEARCH, travel_patterns)]"

subsection \<open>Intent detection (engine.js, detectIntent)\<close>

text \<open>The first loop: for each intent, the number of its patterns that match.\<close>

definition count_matches :: "rx list \<Rightarrow> string \<Rightarrow> nat" where
  "count_matches ps s = length (filter (\<lambda>p. rx_test p s) ps)"

definition pattern_scores :: "string \<Rightarrow> (intent \<times> nat) list" where
  "pattern_scores normalized = map (\<lambda>(i, ps). (i, count_matches ps normalized)) INTENT_PATTERNS"

definition has_location :: "entities \<Rightarrow> bool" where
  "has_location e = (truthy (field e ''origin'') \<or> truthy (field e ''destination''))"

definition score_of :: "(intent \<times> nat) list \<Rightarrow> intent \<Rightarrow> nat" where
  "score_of scores i = (case map_of scores i of None \<Rightarrow> 0 | Some n \<Rightarrow> n)"

text \<open>\<^verbatim>\<open>scores[k] = v\<close> on an object: an existing key keeps its place, a new key goes last.\<close>

fun assign :: "(intent \<times> nat) list \<Rightarrow> intent \<Rightarrow> nat \<Rightarrow> (intent \<times> nat) list" where
  "assign [] k v = [(k, v)]"
| "assign ((i, n) # rest) k v = (if i = k then (i, v) # rest else (i, n) # assign rest k v)"

definition boost :: "entities \<Rightarrow> (intent \<times> nat) list \<Rightarrow> (intent \<times> nat) list" where
  "boost e scores =
     (if has_location e then assign scores TRAVEL_SEARCH (score_of scores TRAVEL_SEARCH + 2)
      else scores)"

text \<open>The second loop: the running maximum and the intent that reached it first.\<close>

fun pick :: "intent \<times> nat \<Rightarrow> nat \<times> intent \<Rightarrow> nat \<times> intent" where
  "pick (i, score) (maxScore, bestIntent) =
     (if score > maxScore then (score, i) else (maxScore, bestIntent))"

definition best_of :: "(intent \<times> nat) list \<Rightarrow> nat \<times> intent" where
  "best_of scores = fold pick scores (0, UNKNOWN)"

text \<open>The guard of the last branch of \<^verbatim>\<open>detectIntent\<close>.\<close>

definition fallback_taken :: "string \<Rightarrow> entities \<Rightarrow> bool" where
  "fallback_taken message e =
     (fst (best_of (boost e (pattern_scores (trim (toLowerCase message))))) \<le> 0 \<and> has_location e)"

record detection =
  intent :: intent
  confidence :: rat

definition detectIntent :: "string \<Rightarrow> entities \<Rightarrow> detection" where
  "detectIntent message e =
     (let normalized = trim (toLowerCase message);
          scores = boost e (pattern_scores normalized);
          (maxScore, bestIntent) = best_of scores;
          bestIntent = (if maxScore \<le> 0 \<and> has_location e then TRAVEL_SEARCH else bestIntent)
      in \<lparr>intent = bestIntent, confidence = min (of_nat maxScore / 3) 1\<rparr>)"

subsection \<open>City names (engine.js, CITY_ALIASES and resolveCity)\<close>

definition CITY_ALIASES :: "(string \<times> string) list" where
  "CITY_ALIASES =
    [(''mumbai'', ''Mumbai''), (''bombay'', ''Mumbai''), (''bom'', ''Mumbai''),
     (''delhi'', ''Delhi''), (''new delhi'', ''Delhi''), (''dilli'', ''Delhi''),
     (''pune'', ''Pune''), (''poona'', ''Pune''),
     (''bangalore'', ''Bangalore''), (''bengaluru'', ''Bangalore''), (''blr'', ''Bangalore''),
     (''chennai'', ''Chennai''), (''madras'', ''Chennai''),
     (''hyderabad'', ''Hyderabad''), (''hyd'', ''Hyderabad''),
     (''kolkata'', ''Kolkata''), (''calcutta'', ''Kolkata''), (''cal'', ''Kolkata''),
     (''jaipur'', ''Jaipur''),
     (''ahmedabad'', ''Ahmedabad''), (''amd'', ''Ahmedabad''),
     (''goa'', ''Goa''), (''panaji'', ''Goa''),
     (''lucknow'', ''Lucknow'')]"

text \<open>\<^verbatim>\<open>text.replace(/[^a-z\s]/gi, '').trim().toLowerCase()\<close>: the letters and the white space.\<close>

definition cleaned_text :: "string \<Rightarrow> string" where
  "cleaned_text text = toLowerCase (trim (filter (\<lambda>c. is_alpha c \<or> is_space c) text))"

text \<open>The loop over the entries of the table: the city of the first alias that contains the
  text or is contained in it.\<close>

definition partial_match :: "string \<Rightarrow> jsval" where
  "partial_match cleaned =
     (case find (\<lambda>(alias, city). str_includes cleaned alias \<or> str_includes alias cleaned)
             CITY_ALIASES of
        Some (alias, city) \<Rightarrow> JStr city
      | None \<Rightarrow> JNull)"

text \<open>
  \<^verbatim>\<open>if (CITY_ALIASES[cleaned]) return CITY_ALIASES[cleaned]\<close> returns whatever truthy value
  the read finds: a city of the table or an inherited member.
\<close>

definition resolveCity :: "string \<Rightarrow> jsval" where
  "resolveCity text =
     (if text = [] then JNull
      else let cleaned = cleaned_text text
           in case property_of CITY_ALIASES cleaned of
                Own city \<Rightarrow> if city \<noteq> [] then JStr city else partial_match cleaned
              | Inherited name \<Rightarrow> JInherited name
              | Absent \<Rightarrow> partial_match cleaned)"

subsection \<open>Entity extraction (engine.js)\<close>

text \<open>The text of a capture group; a group that took no part in the match reads as empty.\<close>

definition group :: "(nat \<rightharpoonup> string) \<Rightarrow> nat \<Rightarrow> string" where
  "group g n = (case g n of None \<Rightarrow> [] | Some s \<Rightarrow> s)"

text \<open>\<^verbatim>\<open>([a-z\s]+?)\<close> as group \<open>n\<close>.\<close>

definition phrase :: "nat \<Rightarrow> rx" where
  "phrase n = Cap n (lazy_plus (Alt Alpha Space))"

text \<open>\<^verbatim>\<open>(?:\s+(?:w1|w2|...)|\s*$)\<close>.\<close>

definition stop_at :: "rx list \<Rightarrow> rx" where
  "stop_at ws = Alt (Seq sp1 (alts ws)) (Seq sp Eol)"

definition fromTo_rx :: rx where
  "fromTo_rx = seqs [lit ''from'', sp1, phrase 1, sp1, lit ''to'', sp1, phrase 2,
     stop_at [lit ''by'', lit ''on'', lit ''in'', lit ''at'', lit ''tomorrow'', lit ''today'',
              lit ''next'', lit ''this'', Eol]]"

definition xToY_rx :: rx where
  "xToY_rx = seqs [phrase 1, sp1, lit ''to'', sp1, phrase 2,
     stop_at [lit ''by'', lit ''on'', lit ''in'', lit ''at'', lit ''tomorrow'', lit ''today'',
              lit ''next'', lit ''this'', Eol]]"

definition toFrom_rx :: rx where
  "toFrom_rx = seqs [lit ''to'', sp1, phrase 1, sp1, lit ''from'', sp1, phrase 2, Alt Space Eol]"

definition goTo_rx :: rx where
  "goTo_rx = seqs [words [''go'', ''going'', ''travel'', ''reach'', ''visit'', ''get''], sp1,
     opt (Seq (lit ''to'') sp1), phrase 1,
     stop_at [lit ''by'', lit ''on'', lit ''in'', lit ''at'', lit ''from'', lit ''tomorrow'',
              lit ''today'']]"

definition from_rx :: rx where
  "from_rx = seqs [lit ''from'', sp1, phrase 1,
     stop_at [lit ''by'', lit ''on'', lit ''in'', lit ''at'', lit ''to'', lit ''tomorrow'',
              lit ''today'']]"

definition extractLocations :: "string \<Rightarrow> entities" where
  "extractLocations text =
     (case rx_match fromTo_rx text of
        Some g \<Rightarrow> [''origin'' \<mapsto> resolveCity (trim (group g 1)),
                   ''destination'' \<mapsto> resolveCity (trim (group g 2))]
      | None \<Rightarrow>
          (case (case rx_match xToY_rx text of
                   None \<Rightarrow> None
                 | Some g \<Rightarrow>
                     (let origin = resolveCity (trim (group g 1));
                          dest = resolveCity (trim (group g 2))
                      in if truthy origin \<and> truthy dest
                         then Some [''origin'' \<mapsto> origin, ''destination'' \<mapsto> dest]
                         else None)) of
             Some result \<Rightarrow> result
           | None \<Rightarrow>
               (case rx_match toFrom_rx text of
                  Some g \<Rightarrow> [''destination'' \<mapsto> resolveCity (trim (group g 1)),
                             ''origin'' \<mapsto> resolveCity (trim (group g 2))]
                | None \<Rightarrow>
                    (let result = (case rx_match goTo_rx text of
                                     None \<Rightarrow> Map.empty
                                   | Some g \<Rightarrow>
                                       [''destination'' \<mapsto> resolveCity (trim (group g 1))])
                     in case rx_match from_rx text of
                          None \<Rightarrow> result
                        | Some g \<Rightarrow>
                            result(''origin'' \<mapsto> resolveCity (trim (group g 1)))))))"

definition extractMode :: "string \<Rightarrow> jsval" where
  "extractMode text =
     (if rx_test (bounded [lit ''train'', lit ''railway'', lit ''rail'', lit ''express'',
                           lit ''rajdhani'', lit ''shatabdi'']) text then JStr ''train''
      else if rx_test (bounded [lit ''bus'', lit ''volvo'', lit ''sleeper'', lit ''msrtc'',
                                lit ''rsrtc'', lit ''ksrtc'']) text then JStr ''bus''
      else if rx_test (seqs [WordB, words [''any'', ''both'', ''either'', ''all''], sp,
                             opt (words [''mode'', ''transport'', ''option'']), WordB]) text
      then JStr ''any''
      else JNull)"

text \<open>
  What \<^verbatim>\<open>extractDate\<close> takes from \<^verbatim>\<open>new Date()\<close>: the weekday of today, the ISO date
  \<open>n\<close> days from today, and the ISO date of the next day \<open>d\<close> of month \<open>m\<close>
  (this year, or next year when that day is already past).
\<close>

record clock =
  getDay :: nat
  isoDateAfter :: "nat \<Rightarrow> string"
  isoDateOf :: "int \<Rightarrow> int \<Rightarrow> string"

definition DATE_ALIASES :: "(string \<times> nat option) list" where
  "DATE_ALIASES =
    [(''today'', Some 0), (''tomorrow'', Some 1), (''day after tomorrow'', Some 2),
     (''day after'', Some 2), (''next week'', Some 7), (''this weekend'', None)]"

definition DAY_NAMES :: "string list" where
  "DAY_NAMES = [''sunday'', ''monday'', ''tuesday'', ''wednesday'', ''thursday'', ''friday'', ''saturday'']"

definition monthNames :: "string list" where
  "monthNames = [''jan'', ''feb'', ''mar'', ''apr'', ''may'', ''jun'', ''jul'', ''aug'', ''sep'',
                 ''oct'', ''nov'', ''dec'']"

text \<open>\<^verbatim>\<open>xs.findIndex(p)\<close>; \<open>None\<close> is \<open>-1\<close>.\<close>

fun findIndex :: "('a \<Rightarrow> bool) \<Rightarrow> 'a list \<Rightarrow> nat option" where
  "findIndex p [] = None"
| "findIndex p (x # xs) = (if p x then Some 0 else map_option Suc (findIndex p xs))"

definition explicitDate_rx :: rx where
  "explicitDate_rx =
     seqs [Cap 1 (Seq Digit (opt Digit)), alts [Chr CHR ''/'', Chr CHR ''-'', Space],
           Cap 2 (Seq (alts (Seq Digit (opt Digit) # map lit monthNames)) (Star Alpha))]"

definition extractDate :: "clock \<Rightarrow> string \<Rightarrow> jsval" where
  "extractDate now text =
     (case find (\<lambda>(alias, offset). str_includes text alias) DATE_ALIASES of
        Some (alias, None) \<Rightarrow>
          (let dayOfWeek = getDay now;
               r = (6 - int dayOfWeek + 7) mod 7;
               daysUntilSat = (if r = 0 then 7 else r)
           in JStr (isoDateAfter now (nat daysUntilSat)))
      | Some (alias, Some offset) \<Rightarrow> JStr (isoDateAfter now offset)
      | None \<Rightarrow>
          (case findIndex (\<lambda>name. str_includes text name) DAY_NAMES of
             Some i \<Rightarrow>
               (let daysAhead = int i - int (getDay now);
                    daysAhead = (if daysAhead \<le> 0 then daysAhead + 7 else daysAhead)
                in JStr (isoDateAfter now (nat daysAhead)))
           | None \<Rightarrow>
               (case rx_match explicitDate_rx text of
                  None \<Rightarrow> JNull
                | Some g \<Rightarrow>
                    (let day = parseInt (group g 1);
                         monthStr = toLowerCase (group g 2);
                         month = (case findIndex (\<lambda>m. take (length m) monthStr = m) monthNames of
                                    Some monthIndex \<Rightarrow> Some (int monthIndex)
                                  | None \<Rightarrow> map_option (\<lambda>n. n - 1) (parseInt monthStr))
                     in case (day, month) of
                          (Some d, Some m) \<Rightarrow>
                            if m \<ge> 0 \<and> m \<le> 11 then JStr (isoDateOf now m d) else JNull
                        | _ \<Rightarrow> JNull))))"

definition TIME_PATTERNS :: "(string \<times> jsval) list" where
  "TIME_PATTERNS =
    [(''morning'', JTime ''06:00'' (Some ''12:00'') ''morning''),
     (''afternoon'', JTime ''12:00'' (Some ''17:00'') ''afternoon''),
     (''evening'', JTime ''17:00'' (Some ''21:00'') ''evening''),
     (''night'', JTime ''21:00'' (Some ''06:00'') ''night''),
     (''early'', JTime ''04:00'' (Some ''08:00'') ''early morning''),
     (''late'', JTime ''20:00'' (Some ''23:59'') ''late night'')]"

definition explicitTime_rx :: rx where
  "explicitTime_rx =
     seqs [words [''at'', ''around'', ''by'', ''before'', ''after''], sp,
           Cap 1 (Seq Digit (opt Digit)), opt (Seq (Chr CHR '':'') (Cap 2 (Seq Digit Digit))), sp,
           opt (Cap 3 (words [''am'', ''pm'']))]"

definition extractTime :: "string \<Rightarrow> jsval" where
  "extractTime text =
     (case find (\<lambda>(keyword, timeRange). str_includes text keyword) TIME_PATTERNS of
        Some (keyword, timeRange) \<Rightarrow> timeRange
      | None \<Rightarrow>
          (case rx_match explicitTime_rx text of
             None \<Rightarrow> JNull
           | Some g \<Rightarrow>
               (let hour = (case parseInt (group g 1) of None \<Rightarrow> 0 | Some h \<Rightarrow> nat h);
                    minutes = (case g 2 of None \<Rightarrow> ''00'' | Some mm \<Rightarrow> mm);
                    ampm = map_option toLowerCase (g 3);
                    hour = (if ampm = Some ''pm'' \<and> hour < 12 then hour + 12 else hour);
                    hour = (if ampm = Some ''am'' \<and> hour = 12 then 0 else hour)
                in JTime (padStart2 (toString hour) @ '':'' @ minutes) None
                     (''around '' @ toString hour @ '':'' @ minutes))))"

definition extractClass :: "string \<Rightarrow> jsval" where
  "extractClass text =
     (if rx_test (bounded [spaced [''first'', ''class''], spaced [''1st'', ''class''], lit ''fc'',
                           lit ''1ac'']) text then JStr ''first''
      else if rx_test (bounded [spaced [''second'', ''class''], spaced [''2nd'', ''class''],
                                lit ''2ac'']) text then JStr ''second''
      else if rx_test (bounded [lit ''sleeper'', lit ''sl'', lit ''3ac'']) text then JStr ''sleeper''
      else if rx_test (bounded [lit ''ac'', spaced [''air'', ''condition'']]) text then JStr ''ac''
      else if rx_test (bounded [lit ''general'', lit ''gen'', lit ''unreserved'']) text
      then JStr ''general''
      else JNull)"

definition extractBudget :: "string \<Rightarrow> jsval" where
  "extractBudget text =
     (if rx_test (bounded [lit ''cheap'', lit ''budget'', spaced [''low'', ''cost''],
                           lit ''affordable'', lit ''economy'', lit ''economical'']) text
      then JStr ''budget''
      else if rx_test (bounded [lit ''premium'', lit ''luxury'', lit ''comfortable'', lit ''best'',
                                lit ''top'', lit ''vip'']) text then JStr ''premium''
      else if rx_test (bounded [lit ''moderate'', lit ''balanced'', lit ''mid'', lit ''medium'']) text
      then JStr ''balanced''
      else JNull)"

text \<open>
  \<^verbatim>\<open>mergeWithContext\<close>: a copy of the context, in which each entry of the new record
  that is neither \<^verbatim>\<open>null\<close> nor \<^verbatim>\<open>undefined\<close> is written. The new record is read through
  \<^verbatim>\<open>Object.entries\<close>, so it is given as the list of its entries.
\<close>

definition mergeWithContext :: "(string \<times> jsval) list \<Rightarrow> entities \<Rightarrow> entities" where
  "mergeWithContext ents context =
     fold (\<lambda>(key, val) merged. if val \<noteq> JNull \<and> val \<noteq> JUndefined then merged(key \<mapsto> val) else merged)
       ents context"

text \<open>\<^verbatim>\<open>if (v) entities.k = v\<close> on a record that has no key \<open>k\<close> yet.\<close>

definition put :: "string \<Rightarrow> jsval \<Rightarrow> (string \<times> jsval) list" where
  "put k v = (if truthy v then [(k, v)] else [])"

text \<open>The record \<^verbatim>\<open>extractEntities\<close> builds from the message alone, before the merge.\<close>

definition extracted :: "clock \<Rightarrow> string \<Rightarrow> (string \<times> jsval) list" where
  "extracted now message =
     (let normalized = trim (toLowerCase message);
          locations = extractLocations normalized
      in put ''origin'' (field locations ''origin'')
       @ put ''destination'' (field locations ''destination'')
       @ put ''mode'' (extractMode normalized)
       @ put ''date'' (extractDate now normalized)
       @ put ''timePreference'' (extractTime normalized)
       @ put ''seatClass'' (extractClass normalized)
       @ put ''budgetPreference'' (extractBudget normalized))"

definition extractEntities :: "clock \<Rightarrow> string \<Rightarrow> entities \<Rightarrow> entities" where
  "extractEntities now message context = mergeWithContext (extracted now message) context"

subsection \<open>Routes and their scores (routePlanner.js)\<close>

record schedule =
  departure_time :: string
  arrival_time :: string
  platform :: "string option"

text \<open>A number of the program: a rational, or \<^verbatim>\<open>NaN\<close>.\<close>

datatype number = Num rat | NaN

text \<open>
  A route as the lookup returns it; \<open>score\<close> and \<open>tags\<close> are the properties \<^verbatim>\<open>_score\<close> and
  \<^verbatim>\<open>_tags\<close>, absent until \<^verbatim>\<open>scoreRoutes\<close> writes them.
\<close>

record route =
  route_id :: string
  mode :: string
  operator :: string
  route_name :: string
  base_price :: rat
  duration_minutes :: int
  distance_km :: "rat option"
  origin_station :: string
  dest_station :: string
  schedules :: "schedule list option"
  score :: "number option"
  tags :: "string list option"

record weights =
  price_weight :: rat
  duration_weight :: rat
  schedule_weight :: rat
  operator_weight :: rat

definition operator_scores :: "(string \<times> rat) list" where
  "operator_scores =
    [(''Indian Railways'', 85 / 100), (''MSRTC'', 7 / 10), (''RSRTC'', 65 / 100),
     (''KSRTC'', 75 / 100), (''APSRTC'', 7 / 10), (''UPSRTC'', 6 / 10),
     (''Neeta Travels'', 8 / 10), (''Paulo Travels'', 85 / 100), (''VRL Travels'', 8 / 10),
     (''Eagle Travels'', 7 / 10), (''Orange Travels'', 75 / 100)]"

text \<open>
  \<^verbatim>\<open>scores[operator] || 0.5\<close>: the number of the table, 0.5 for a name the read does not
  find, or the inherited member the read finds, which is truthy.
\<close>

definition getOperatorScore :: "string \<Rightarrow> rat property" where
  "getOperatorScore name =
     (case property_of operator_scores name of
        Own s \<Rightarrow> if s = 0 then Own (1 / 2) else Own s
      | Inherited key \<Rightarrow> Inherited key
      | Absent \<Rightarrow> Own (1 / 2))"

text \<open>
  The product of a weight and what \<^verbatim>\<open>getOperatorScore\<close> returned, and the sum of two
  numbers: a function or an object converts to \<^verbatim>\<open>NaN\<close>, and \<^verbatim>\<open>NaN\<close> absorbs.
\<close>

fun js_times :: "rat \<Rightarrow> rat property \<Rightarrow> number" where
  "js_times w (Own x) = Num (w * x)"
| "js_times w (Inherited key) = NaN"
| "js_times w Absent = NaN"

fun js_plus :: "number \<Rightarrow> number \<Rightarrow> number" where
  "js_plus (Num a) (Num b) = Num (a + b)"
| "js_plus (Num a) NaN = NaN"
| "js_plus NaN b = NaN"

text \<open>\<^verbatim>\<open>Math.min(...xs)\<close> and \<^verbatim>\<open>Math.max(...xs)\<close> on a list with a first element.\<close>

definition minimum :: "'a::linorder \<Rightarrow> 'a list \<Rightarrow> 'a" where
  "minimum x xs = fold min xs x"

definition maximum :: "'a::linorder \<Rightarrow> 'a list \<Rightarrow> 'a" where
  "maximum x xs = fold max xs x"

definition weights_for :: "entities \<Rightarrow> weights" where
  "weights_for e =
     (if field e ''budgetPreference'' = JStr ''budget''
      then \<lparr>price_weight = 5 / 10, duration_weight = 25 / 100, schedule_weight = 15 / 100,
            operator_weight = 1 / 10\<rparr>
      else if field e ''budgetPreference'' = JStr ''premium''
      then \<lparr>price_weight = 1 / 10, duration_weight = 3 / 10, schedule_weight = 2 / 10,
            operator_weight = 4 / 10\<rparr>
      else \<lparr>price_weight = 3 / 10, duration_weight = 3 / 10, schedule_weight = 2 / 10,
            operator_weight = 2 / 10\<rparr>)"

definition priceScore :: "rat \<Rightarrow> rat \<Rightarrow> route \<Rightarrow> rat" where
  "priceScore minPrice maxPrice r =
     (if maxPrice = minPrice then 1 else 1 - (base_price r - minPrice) / (maxPrice - minPrice))"

definition durationScore :: "int \<Rightarrow> int \<Rightarrow> route \<Rightarrow> rat" where
  "durationScore minDuration maxDuration r =
     (if maxDuration = minDuration then 1
      else 1 - of_int (duration_minutes r - minDuration) / of_int (maxDuration - minDuration))"

text \<open>\<^verbatim>\<open>route.schedules?.length || 0\<close>.\<close>

definition scheduleCount :: "route \<Rightarrow> nat" where
  "scheduleCount r = (case schedules r of None \<Rightarrow> 0 | Some ss \<Rightarrow> length ss)"

definition scheduleScore :: "route \<Rightarrow> rat" where
  "scheduleScore r = min (of_nat (scheduleCount r) / 5) 1"

definition operatorScore :: "route \<Rightarrow> rat property" where
  "operatorScore r = getOperatorScore (operator r)"

text \<open>The body of the loop of \<^verbatim>\<open>scoreRoutes\<close>: the route with its score and its tags.\<close>

definition score_route :: "weights \<Rightarrow> rat \<Rightarrow> rat \<Rightarrow> int \<Rightarrow> int \<Rightarrow> route \<Rightarrow> route" where
  "score_route w minPrice maxPrice minDuration maxDuration r =
     r\<lparr>score := Some (js_plus
                       (Num (price_weight w * priceScore minPrice maxPrice r
                             + duration_weight w * durationScore minDuration maxDuration r
                             + schedule_weight w * scheduleScore r))
                       (js_times (operator_weight w) (operatorScore r))),
       tags := Some ((if base_price r = minPrice then [''cheapest''] else [])
                   @ (if duration_minutes r = minDuration then [''fastest''] else [])
                   @ (if scheduleCount r \<ge> 4 then [''frequent''] else []))\<rparr>"

definition scoreRoutes :: "route list \<Rightarrow> entities \<Rightarrow> route list" where
  "scoreRoutes routes e =
     (case routes of
        [] \<Rightarrow> routes
      | r # rs \<Rightarrow>
          (let prices = map base_price rs;
               durations = map duration_minutes rs;
               minPrice = minimum (base_price r) prices;
               maxPrice = maximum (base_price r) prices;
               minDuration = minimum (duration_minutes r) durations;
               maxDuration = maximum (duration_minutes r) durations
           in map (score_route (weights_for e) minPrice maxPrice minDuration maxDuration) routes))"

datatype exn = Error string

text \<open>
  The route lookup (\<^verbatim>\<open>TransportService.searchRoutes\<close>) reads the database: it is a
  parameter, called with origin, destination, mode, time preference, date and budget preference,
  and it returns routes or throws.
\<close>

type_synonym lookup = "jsval \<Rightarrow> jsval \<Rightarrow> jsval \<Rightarrow> jsval \<Rightarrow> jsval \<Rightarrow> jsval \<Rightarrow> exn + route list"

text \<open>
  The comparator \<^verbatim>\<open>(a, b) => b._score - a._score\<close>; the sort reads a \<^verbatim>\<open>NaN\<close> result
  as 0.
\<close>

definition by_score :: "route \<Rightarrow> route \<Rightarrow> rat" where
  "by_score a b =
     (case (score a, score b) of
        (Some (Num x), Some (Num y)) \<Rightarrow> y - x
      | _ \<Rightarrow> 0)"

text \<open>
  \<^verbatim>\<open>routes.sort(compare)\<close> as an insertion sort: each element moves left past the elements
  that compare greater. On scores that are numbers this is the stable sort with the higher
  score first. With a \<^verbatim>\<open>NaN\<close> score the comparator is not consistent and the language
  leaves the order to the implementation; the order below is one such.
\<close>

fun place :: "('a \<Rightarrow> 'a \<Rightarrow> rat) \<Rightarrow> 'a \<Rightarrow> 'a list \<Rightarrow> 'a list" where
  "place compare x [] = [x]"
| "place compare x (y # ys) = (if compare y x > 0 then y # place compare x ys else x # y # ys)"

definition sort_with :: "('a \<Rightarrow> 'a \<Rightarrow> rat) \<Rightarrow> 'a list \<Rightarrow> 'a list" where
  "sort_with compare xs = rev (foldl (\<lambda>sorted x. place compare x sorted) [] xs)"

text \<open>\<^verbatim>\<open>planRoutes\<close>, as far as its caller reads the result: the field \<^verbatim>\<open>routes\<close>.\<close>

definition planRoutes :: "lookup \<Rightarrow> entities \<Rightarrow> exn + route list" where
  "planRoutes searchRoutes e =
     (if \<not> truthy (field e ''origin'') \<or> \<not> truthy (field e ''destination'') then Inr []
      else case searchRoutes (field e ''origin'') (field e ''destination'')
                  (if truthy (field e ''mode'') then field e ''mode'' else JStr ''any'')
                  (field e ''timePreference'') (field e ''date'') (field e ''budgetPreference'') of
             Inl err \<Rightarrow> Inl err
           | Inr routes \<Rightarrow> Inr (sort_with by_score (scoreRoutes routes e)))"

subsection \<open>Responses (engine.js, ResponseGenerator, and the texts of chatService.js)\<close>

text \<open>
  A response is a text built from a fixed template. It is represented by the template and the
  values written into it; a number picks one of several canned texts.
\<close>

datatype response =
    Greeting nat | Help | Goodbye nat | Thanks nat | Unknown nat
  | AskOriginAndDestination | AskOrigin jsval | AskDestination jsval | AskMore
  | RouteResults "route list" jsval jsval jsval jsval
  | NoResults jsval jsval jsval
  | Comparison "route list" | OnlyOneRoute | NothingToCompare
  | PreferencesNoted "(string \<times> jsval) list"
  | RouteDetails route | SelectValidOption nat | NothingToSelect

definition generateMissingInfo :: "string list \<Rightarrow> entities \<Rightarrow> response" where
  "generateMissingInfo missing e =
     (if ''origin'' \<in> set missing \<and> ''destination'' \<in> set missing then AskOriginAndDestination
      else if ''origin'' \<in> set missing then AskOrigin (field e ''destination'')
      else if ''destination'' \<in> set missing then AskDestination (field e ''origin'')
      else AskMore)"

definition generateRouteResults :: "route list \<Rightarrow> entities \<Rightarrow> response" where
  "generateRouteResults routes e =
     (if routes = [] then NoResults (field e ''origin'') (field e ''destination'') (field e ''mode'')
      else RouteResults routes (field e ''origin'') (field e ''destination'') (field e ''mode'')
             (field e ''date''))"

subsection \<open>Conversation context (engine.js, ConversationContext)\<close>

datatype phase = idle | collecting_info | showing_results | confirming

datatype body = Text string | Reply response

record turn =
  role :: string
  content :: body
  timestamp :: string

record session =
  entities :: entities
  lastIntent :: "intent option"
  turnCount :: nat
  history :: "turn list"
  lastRoutes :: "route list option"
  state :: phase

type_synonym sessions = "string \<rightharpoonup> session"

definition new_session :: session where
  "new_session = \<lparr>entities = Map.empty, lastIntent = None, turnCount = 0, history = [],
                   lastRoutes = None, state = idle\<rparr>"

definition getContext :: "sessions \<Rightarrow> string \<Rightarrow> session \<times> sessions" where
  "getContext ss sessionId =
     (case ss sessionId of
        None \<Rightarrow> (new_session, ss(sessionId \<mapsto> new_session))
      | Some ctx \<Rightarrow> (ctx, ss))"

text \<open>The argument \<^verbatim>\<open>updates\<close>: each key is given or absent.\<close>

record updates =
  upd_entities :: "entities option"
  upd_lastIntent :: "intent option"
  upd_state :: "phase option"
  upd_lastRoutes :: "route list option"
  upd_message :: "turn option"

definition no_updates :: updates where
  "no_updates = \<lparr>upd_entities = None, upd_lastIntent = None, upd_state = None,
                  upd_lastRoutes = None, upd_message = None\<rparr>"

text \<open>\<^verbatim>\<open>history.push(turn)\<close> followed by the cut to the last 20 turns.\<close>

definition pushed :: "turn list \<Rightarrow> turn \<Rightarrow> turn list" where
  "pushed h t = (let h' = h @ [t] in if length h' > 20 then drop (length h' - 20) h' else h')"

definition updateContext :: "sessions \<Rightarrow> string \<Rightarrow> updates \<Rightarrow> session \<times> sessions" where
  "updateContext ss sessionId u =
     (let (ctx, ss) = getContext ss sessionId;
          ctx = (case upd_entities u of None \<Rightarrow> ctx | Some e \<Rightarrow> ctx\<lparr>entities := entities ctx ++ e\<rparr>);
          ctx = (case upd_lastIntent u of None \<Rightarrow> ctx | Some i \<Rightarrow> ctx\<lparr>lastIntent := Some i\<rparr>);
          ctx = (case upd_state u of None \<Rightarrow> ctx | Some p \<Rightarrow> ctx\<lparr>state := p\<rparr>);
          ctx = (case upd_lastRoutes u of None \<Rightarrow> ctx | Some rs \<Rightarrow> ctx\<lparr>lastRoutes := Some rs\<rparr>);
          ctx = ctx\<lparr>turnCount := turnCount ctx + 1\<rparr>;
          ctx = (case upd_message u of
                   None \<Rightarrow> ctx
                 | Some msg \<Rightarrow> ctx\<lparr>history := pushed (history ctx) msg\<rparr>)
      in (ctx, ss(sessionId \<mapsto> ctx)))"

definition clearContext :: "sessions \<Rightarrow> string \<Rightarrow> sessions" where
  "clearContext ss sessionId = ss(sessionId := None)"

definition getMissingEntities :: "sessions \<Rightarrow> string \<Rightarrow> string list \<times> sessions" where
  "getMissingEntities ss sessionId =
     (let (ctx, ss) = getContext ss sessionId
      in ((if \<not> truthy (field (entities ctx) ''origin'') then [''origin''] else [])
          @ (if \<not> truthy (field (entities ctx) ''destination'') then [''destination''] else []), ss))"

subsection \<open>Chat service (chatService.js)\<close>

record metadata = detection +
  meta_entities :: entities
  meta_routes :: "route list option option"

record result =
  response_text :: response
  metadata :: metadata
  sessionId :: string

text \<open>
  The parameters of a statement: a string, the content of a turn, or the metadata that
  \<^verbatim>\<open>JSON.stringify\<close> serialises (\<open>None\<close> is the empty object).
\<close>

datatype sqlval = SText string | SBody body | SMeta "metadata option"

text \<open>
  What the service takes from outside: the clock, the two time stamps of a turn,
  \<^verbatim>\<open>Math.floor(Math.random() * n)\<close>, the route lookup, \<^verbatim>\<open>uuidv4\<close> at its \<open>k\<close>-th call, and
  the SQL layer over a database \<open>'db\<close>. A query returns a row, no row, or throws; a statement
  returns the new database or throws, leaving some database behind.
\<close>

record 'db env =
  clock :: clock
  user_timestamp :: string
  reply_timestamp :: string
  random_index :: "nat \<Rightarrow> nat"
  searchRoutes :: lookup
  uuidv4 :: "nat \<Rightarrow> string"
  queryOne :: "'db \<Rightarrow> string \<Rightarrow> sqlval list \<Rightarrow> exn + string list option"
  runSql :: "'db \<Rightarrow> string \<Rightarrow> sqlval list \<Rightarrow> (exn \<times> 'db) + 'db"

text \<open>The state the service works on: the sessions in memory, the database, the error console.\<close>

record 'db world =
  sessions :: sessions
  db :: 'db
  console :: "string list"

definition state_update :: "phase \<Rightarrow> updates" where
  "state_update p = no_updates\<lparr>upd_state := Some p\<rparr>"

definition handleTravelQuery ::
  "lookup \<Rightarrow> sessions \<Rightarrow> string \<Rightarrow> entities \<Rightarrow> (exn + response) \<times> sessions" where
  "handleTravelQuery look ss sid e =
     (let (missing, ss) = getMissingEntities ss sid
      in if length missing > 0
         then (let (ctx, ss) = updateContext ss sid (state_update collecting_info)
               in (Inr (generateMissingInfo missing e), ss))
         else (let (ctx, ss) = updateContext ss sid (state_update showing_results)
               in case planRoutes look e of
                    Inl err \<Rightarrow> (Inl err, ss)
                  | Inr routes \<Rightarrow>
                      (let (ctx, ss) = updateContext ss sid (no_updates\<lparr>upd_lastRoutes := Some routes\<rparr>)
                       in (Inr (generateRouteResults routes e), ss))))"

definition generateComparison :: "route list \<Rightarrow> response" where
  "generateComparison routes = (if length routes < 2 then OnlyOneRoute else Comparison routes)"

definition has_trip :: "entities \<Rightarrow> bool" where
  "has_trip e = (truthy (field e ''origin'') \<and> truthy (field e ''destination''))"

definition handleCompareRoutes ::
  "lookup \<Rightarrow> sessions \<Rightarrow> string \<Rightarrow> entities \<Rightarrow> (exn + response) \<times> sessions" where
  "handleCompareRoutes look ss sid e =
     (let (ctx, ss) = getContext ss sid
      in if (case lastRoutes ctx of None \<Rightarrow> False | Some rs \<Rightarrow> length rs > 0)
         then (Inr (generateComparison (case lastRoutes ctx of None \<Rightarrow> [] | Some rs \<Rightarrow> rs)), ss)
         else if has_trip e then handleTravelQuery look ss sid e
         else (Inr NothingToCompare, ss))"

definition handlePreference ::
  "lookup \<Rightarrow> sessions \<Rightarrow> string \<Rightarrow> entities \<Rightarrow> (exn + response) \<times> sessions" where
  "handlePreference look ss sid e =
     (let (ctx, ss) = getContext ss sid
      in if has_trip e then handleTravelQuery look ss sid e
         else (Inr (PreferencesNoted
                 ((if truthy (field e ''mode'') then [(''transport'', field e ''mode'')] else [])
                  @ (if truthy (field e ''budgetPreference'')
                     then [(''budget'', field e ''budgetPreference'')] else [])
                  @ (if truthy (field e ''seatClass'') then [(''class'', field e ''seatClass'')] else []))),
               ss))"

text \<open>\<^verbatim>\<open>/(\d+)/\<close>.\<close>

definition number_rx :: rx where
  "number_rx = Cap 1 (plus_rx Digit)"

definition handleRouteSelection :: "sessions \<Rightarrow> string \<Rightarrow> string \<Rightarrow> response \<times> sessions" where
  "handleRouteSelection ss sid message =
     (let (ctx, ss) = getContext ss sid
      in case lastRoutes ctx of
           None \<Rightarrow> (NothingToSelect, ss)
         | Some routes \<Rightarrow>
             if length routes = 0 then (NothingToSelect, ss)
             else (case rx_match number_rx message of
                     None \<Rightarrow> (SelectValidOption (length routes), ss)
                   | Some numMatch \<Rightarrow>
                       (case parseInt (group numMatch 1) of
                          None \<Rightarrow> (SelectValidOption (length routes), ss)
                        | Some n \<Rightarrow>
                            (let idx = n - 1
                             in if idx \<ge> 0 \<and> idx < int (length routes)
                                then (RouteDetails (routes ! nat idx), ss)
                                else (SelectValidOption (length routes), ss)))))"

text \<open>
  \<^verbatim>\<open>saveMessage\<close>: the block under \<^verbatim>\<open>try\<close>, in which each call of the SQL layer may
  throw, and the \<^verbatim>\<open>catch\<close> clause, which writes the error to the console.
\<close>

definition select_session :: string where
  "select_session = ''SELECT id FROM sessions WHERE id = ?''"

definition insert_session :: string where
  "insert_session = ''INSERT INTO sessions (id, title) VALUES (?, ?)''"

definition insert_message :: string where
  "insert_message =
     ''INSERT INTO messages (id, session_id, role, content, metadata) VALUES (?, ?, ?, ?, ?)''"

definition save_block ::
  "'db env \<Rightarrow> string \<Rightarrow> string \<Rightarrow> body \<Rightarrow> metadata option \<Rightarrow> nat \<Rightarrow> 'db world
     \<Rightarrow> (exn \<times> 'db world) + (unit \<times> 'db world)" where
  "save_block env sid who what meta k w =
     (case queryOne env (db w) select_session [SText sid] of
        Inl err \<Rightarrow> Inl (err, w)
      | Inr row \<Rightarrow>
          (case (if row = None
                 then runSql env (db w) insert_session [SText sid, SText ''Travel Planning'']
                 else Inr (db w)) of
             Inl (err, d) \<Rightarrow> Inl (err, w\<lparr>db := d\<rparr>)
           | Inr d \<Rightarrow>
               (case runSql env d insert_message
                       [SText (uuidv4 env k), SText sid, SText who, SBody what, SMeta meta] of
                  Inl (err, d') \<Rightarrow> Inl (err, w\<lparr>db := d'\<rparr>)
                | Inr d' \<Rightarrow> Inr ((), w\<lparr>db := d'\<rparr>))))"

definition try_catch ::
  "('s \<Rightarrow> (exn \<times> 's) + ('a \<times> 's)) \<Rightarrow> (exn \<Rightarrow> 's \<Rightarrow> (exn \<times> 's) + ('a \<times> 's)) \<Rightarrow> 's
     \<Rightarrow> (exn \<times> 's) + ('a \<times> 's)" where
  "try_catch block handler s = (case block s of Inl (err, s') \<Rightarrow> handler err s' | Inr r \<Rightarrow> Inr r)"

fun message_of :: "exn \<Rightarrow> string" where
  "message_of (Error msg) = msg"

definition console_error :: "string \<Rightarrow> 'db world \<Rightarrow> (exn \<times> 'db world) + (unit \<times> 'db world)" where
  "console_error line w = Inr ((), w\<lparr>console := console w @ [line]\<rparr>)"

definition saveMessage ::
  "'db env \<Rightarrow> string \<Rightarrow> string \<Rightarrow> body \<Rightarrow> metadata option \<Rightarrow> nat \<Rightarrow> 'db world
     \<Rightarrow> (exn \<times> 'db world) + (unit \<times> 'db world)" where
  "saveMessage env sid who what meta k =
     try_catch (save_block env sid who what meta k)
       (\<lambda>error. console_error (''Failed to save message: '' @ message_of error))"

text \<open>
  The \<^verbatim>\<open>switch\<close> of \<^verbatim>\<open>processMessage\<close>: the response and, for a travel query, the value
  written to \<^verbatim>\<open>metadata.routes\<close>.
\<close>

definition travel_reply ::
  "lookup \<Rightarrow> sessions \<Rightarrow> string \<Rightarrow> entities
     \<Rightarrow> (exn + response \<times> route list option option) \<times> sessions" where
  "travel_reply look ss sid e =
     (case handleTravelQuery look ss sid e of
        (Inl err, ss) \<Rightarrow> (Inl err, ss)
      | (Inr response, ss) \<Rightarrow>
          (let (ctx, ss) = getContext ss sid in (Inr (response, Some (lastRoutes ctx)), ss)))"

definition plain :: "(exn + response) \<times> sessions
     \<Rightarrow> (exn + response \<times> route list option option) \<times> sessions" where
  "plain r = (case r of (Inl err, ss) \<Rightarrow> (Inl err, ss) | (Inr response, ss) \<Rightarrow> (Inr (response, None), ss))"

fun dispatch ::
  "'db env \<Rightarrow> sessions \<Rightarrow> string \<Rightarrow> string \<Rightarrow> entities \<Rightarrow> intent
     \<Rightarrow> (exn + response \<times> route list option option) \<times> sessions" where
  "dispatch env ss sid message e GREETING =
     (Inr (Greeting (random_index env 4), None), snd (updateContext ss sid (state_update idle)))"
| "dispatch env ss sid message e HELP = (Inr (Help, None), ss)"
| "dispatch env ss sid message e GOODBYE =
     (Inr (Goodbye (random_index env 3), None), clearContext ss sid)"
| "dispatch env ss sid message e THANKS = (Inr (Thanks (random_index env 3), None), ss)"
| "dispatch env ss sid message e TRAVEL_SEARCH = travel_reply (searchRoutes env) ss sid e"
| "dispatch env ss sid message e SCHEDULE_QUERY = travel_reply (searchRoutes env) ss sid e"
| "dispatch env ss sid message e PRICE_QUERY = travel_reply (searchRoutes env) ss sid e"
| "dispatch env ss sid message e COMPARE_ROUTES =
     plain (handleCompareRoutes (searchRoutes env) ss sid e)"
| "dispatch env ss sid message e ROUTE_PREFERENCE =
     plain (handlePreference (searchRoutes env) ss sid e)"
| "dispatch env ss sid message e SELECT_ROUTE =
     (case handleRouteSelection ss sid message of (response, ss) \<Rightarrow> (Inr (response, None), ss))"
| "dispatch env ss sid message e UNKNOWN =
     (if has_trip e then travel_reply (searchRoutes env) ss sid e
      else (Inr (Unknown (random_index env 3), None), ss))"

text \<open>The two turns \<^verbatim>\<open>processMessage\<close> appends to the history.\<close>

definition user_turn :: "'db env \<Rightarrow> string \<Rightarrow> turn" where
  "user_turn env message = \<lparr>role = ''user'', content = Text message, timestamp = user_timestamp env\<rparr>"

definition assistant_turn :: "'db env \<Rightarrow> response \<Rightarrow> turn" where
  "assistant_turn env response =
     \<lparr>role = ''assistant'', content = Reply response, timestamp = reply_timestamp env\<rparr>"

definition processMessage ::
  "'db env \<Rightarrow> string \<Rightarrow> string \<Rightarrow> 'db world \<Rightarrow> (exn \<times> 'db world) + (result \<times> 'db world)" where
  "processMessage env sid message w =
     (let (ctx, ss) = getContext (sessions w) sid;
          e = extractEntities (clock env) message (entities ctx);
          d = detectIntent message e;
          (ctx, ss) = updateContext ss sid
             (no_updates\<lparr>upd_entities := Some e, upd_lastIntent := Some (intent d),
                upd_message := Some (user_turn env message)\<rparr>)
      in case dispatch env ss sid message e (intent d) of
           (Inl err, ss) \<Rightarrow> Inl (err, w\<lparr>sessions := ss\<rparr>)
         | (Inr (response, routes), ss) \<Rightarrow>
             (let meta = \<lparr>intent = intent d, confidence = confidence d, meta_entities = e,
                          meta_routes = routes\<rparr>;
                  (ctx, ss) = updateContext ss sid
                     (no_updates\<lparr>upd_message := Some (assistant_turn env response)\<rparr>);
                  w = w\<lparr>sessions := ss\<rparr>
              in case saveMessage env sid ''user'' (Text message) (Some meta) 0 w of
                   Inl failure \<Rightarrow> Inl failure
                 | Inr (u, w) \<Rightarrow>
                     (case saveMessage env sid ''assistant'' (Reply response) None 1 w of
                        Inl failure \<Rightarrow> Inl failure
                      | Inr (u, w) \<Rightarrow>
                          Inr (\<lparr>response_text = response, metadata = meta, sessionId = sid\<rparr>, w))))"

subsection \<open>What a call of the service leaves behind\<close>

text \<open>
  The caller of \<^verbatim>\<open>processMessage\<close> sees the value returned or the error thrown; the
  world is the state after the call, in both cases.
\<close>

definition returned :: "(exn \<times> 'db world) + (result \<times> 'db world) \<Rightarrow> exn + result" where
  "returned r = (case r of Inl (err, w) \<Rightarrow> Inl err | Inr (res, w) \<Rightarrow> Inr res)"

definition world_after :: "(exn \<times> 'db world) + (result \<times> 'db world) \<Rightarrow> 'db world" where
  "world_after r = (case r of Inl (err, w) \<Rightarrow> w | Inr (res, w) \<Rightarrow> w)"

text \<open>The session a reference to the identifier finds: the stored one, or a new one.\<close>

definition session_of :: "sessions \<Rightarrow> string \<Rightarrow> session" where
  "session_of ss sid = fst (getContext ss sid)"

text \<open>The entities and the intent \<^verbatim>\<open>processMessage\<close> computes for a message.\<close>

definition turn_entities :: "'db env \<Rightarrow> string \<Rightarrow> string \<Rightarrow> 'db world \<Rightarrow> entities" where
  "turn_entities env sid message w =
     extractEntities (clock env) message (entities (session_of (sessions w) sid))"

definition turn_intent :: "'db env \<Rightarrow> string \<Rightarrow> string \<Rightarrow> 'db world \<Rightarrow> intent" where
  "turn_intent env sid message w = intent (detectIntent message (turn_entities env sid message w))"

text \<open>The sessions after the first update of \<^verbatim>\<open>processMessage\<close>, which records the user turn.\<close>

definition after_user_turn :: "'db env \<Rightarrow> string \<Rightarrow> string \<Rightarrow> 'db world \<Rightarrow> sessions" where
  "after_user_turn env sid message w =
     snd (updateContext (sessions w) sid
            (no_updates\<lparr>upd_entities := Some (turn_entities env sid message w),
               upd_lastIntent := Some (turn_intent env sid message w),
               upd_message := Some (user_turn env message)\<rparr>))"

subsection \<open>The first integer literal of a text\<close>

text \<open>
  The first maximal run of decimal digits of a text, read from the left, and the number it
  denotes. This is what the words "the first integer literal in the raw text" say; the handler
  itself finds it with the pattern \<^verbatim>\<open>/(\d+)/\<close> and \<^verbatim>\<open>parseInt\<close>.
\<close>

definition first_integer_literal :: "string \<Rightarrow> string option" where
  "first_integer_literal s =
     (let rest = dropWhile (\<lambda>c. \<not> is_digit c) s
      in if rest = [] then None else Some (takeWhile is_digit rest))"

definition decimal :: "string \<Rightarrow> nat" where
  "decimal ds = foldl (\<lambda>n c. 10 * n + digit_val c) 0 ds"

subsection \<open>Data for the examples\<close>

text \<open>
  A clock at noon (UTC) on Monday, 2 November 2026. The two date functions are right for the
  days the examples ask for: up to four weeks ahead, and days that exist in their month.
\<close>

definition example_clock :: clock where
  "example_clock =
     \<lparr>getDay = 1,
      isoDateAfter = (\<lambda>n. ''2026-11-'' @ padStart2 (toString (2 + n))),
      isoDateOf = (\<lambda>m d. (if m < 10 \<or> (m = 10 \<and> d \<le> 2) then ''2027-'' else ''2026-'')
                          @ padStart2 (toString (nat (m + 1))) @ ''-'' @ padStart2 (toString (nat d)))\<rparr>"

text \<open>The two routes of the repository's test of the response generator.\<close>

definition deccan_express :: route where
  "deccan_express =
     \<lparr>route_id = ''1'', mode = ''train'', operator = ''Indian Railways'', route_name = ''Express'',
      base_price = 350, duration_minutes = 195, distance_km = Some 192,
      origin_station = ''Chhatrapati Shivaji Terminus'', dest_station = ''Pune Junction'',
      schedules = Some [\<lparr>departure_time = ''07:00'', arrival_time = ''10:15'', platform = None\<rparr>],
      score = None, tags = None\<rparr>"

definition shivneri :: route where
  "shivneri =
     \<lparr>route_id = ''2'', mode = ''bus'', operator = ''MSRTC'', route_name = ''Shivneri'',
      base_price = 450, duration_minutes = 210, distance_km = None,
      origin_station = ''Mumbai Bus Terminal'', dest_station = ''Pune Swargate Bus Stand'',
      schedules = Some [\<lparr>departure_time = ''08:00'', arrival_time = ''11:30'', platform = None\<rparr>],
      score = None, tags = None\<rparr>"

definition example_lookup :: lookup where
  "example_lookup origin destination travel_mode time_preference travel_date budget =
     (if origin = JStr ''Mumbai'' \<and> destination = JStr ''Pune'' then Inr [deccan_express, shivneri]
      else Inr [])"

text \<open>
  A service whose database is the number of rows stored, and the same service on a database
  that refuses every statement.
\<close>

definition working_env :: "nat env" where
  "working_env =
     \<lparr>clock = example_clock, user_timestamp = ''2026-11-02T12:00:00.000Z'',
      reply_timestamp = ''2026-11-02T12:00:00.001Z'', random_index = (\<lambda>n. 0),
      searchRoutes = example_lookup, uuidv4 = (\<lambda>k. ''00000000-0000-4000-8000-00000000000'' @ toString k),
      queryOne = (\<lambda>d q ps. Inr (if d = 0 then None else Some [''s1''])),
      runSql = (\<lambda>d q ps. Inr (Suc d))\<rparr>"

definition failing_env :: "nat env" where
  "failing_env =
     working_env\<lparr>queryOne := (\<lambda>d q ps. Inr None),
                 runSql := (\<lambda>d q ps. Inl (Error ''disk full'', d))\<rparr>"

definition fresh_world :: "nat world" where
  "fresh_world = \<lparr>sessions = Map.empty, db = 0, console = []\<rparr>"

text \<open>A world in which session \<open>s1\<close> has had one exchange, and one in which it holds one route.\<close>

definition chatting_world :: "nat world" where
  "chatting_world =
     \<lparr>sessions = [''s1'' \<mapsto>
        \<lparr>entities = [''mode'' \<mapsto> JStr ''train''], lastIntent = Some HELP, turnCount = 2,
         history = [user_turn working_env ''help with trains'', assistant_turn working_env Help],
         lastRoutes = None, state = idle\<rparr>],
      db = 2, console = []\<rparr>"

definition one_route_sessions :: sessions where
  "one_route_sessions =
     [''s1'' \<mapsto> \<lparr>entities = Map.empty, lastIntent = None, turnCount = 0, history = [],
                  lastRoutes = Some [deccan_express], state = showing_results\<rparr>]"

definition one_route_world :: "nat world" where
  "one_route_world = \<lparr>sessions = one_route_sessions, db = 0, console = []\<rparr>"

section \<open>Properties\<close>

text \<open>
  The claims of the specification, each stated over the definitions above. A claim's theorem
  follows the text that names the claim; the lemmas before it prepare its proof.
\<close>

subsection \<open>Route scores\<close>

lemma minimum_Min: "minimum x xs = Min (set (x # xs))"
  by (simp only: minimum_def Min.set_eq_fold)

lemma maximum_Max: "maximum x xs = Max (set (x # xs))"
  by (simp only: maximum_def Max.set_eq_fold)

lemma weights_for_sum:
  "price_weight (weights_for e) + duration_weight (weights_for e)
     + schedule_weight (weights_for e) + operator_weight (weights_for e) = 1"
  by (simp add: weights_for_def)

lemma weights_for_nonneg:
  "0 \<le> price_weight (weights_for e) \<and> 0 \<le> duration_weight (weights_for e)
     \<and> 0 \<le> schedule_weight (weights_for e) \<and> 0 \<le> operator_weight (weights_for e)"
  by (simp add: weights_for_def)

lemma priceScore_bounds:
  assumes "lo \<le> base_price r" and "base_price r \<le> hi"
  shows "0 \<le> priceScore lo hi r \<and> priceScore lo hi r \<le> 1"
proof (cases "hi = lo")
  case True
  then show ?thesis by (simp add: priceScore_def)
next
  case False
  with assms have pos: "0 < hi - lo" by simp
  have "(base_price r - lo) / (hi - lo) \<le> 1"
    using pos assms by (simp add: divide_le_eq)
  moreover have "0 \<le> (base_price r - lo) / (hi - lo)"
    using pos assms by simp
  ultimately show ?thesis using False by (simp add: priceScore_def)
qed

lemma durationScore_bounds:
  assumes "lo \<le> duration_minutes r" and "duration_minutes r \<le> hi"
  shows "0 \<le> durationScore lo hi r \<and> durationScore lo hi r \<le> 1"
proof (cases "hi = lo")
  case True
  then show ?thesis by (simp add: durationScore_def)
next
  case False
  with assms have pos: "(0::rat) < of_int (hi - lo)" by simp
  have "(of_int (duration_minutes r - lo) :: rat) \<le> of_int (hi - lo)"
    using assms by simp
  then have "(of_int (duration_minutes r - lo) :: rat) / of_int (hi - lo) \<le> 1"
    using pos by (simp only: divide_le_eq_1_pos)
  moreover have "(0::rat) \<le> of_int (duration_minutes r - lo) / of_int (hi - lo)"
    using pos assms by simp
  ultimately show ?thesis using False by (simp add: durationScore_def)
qed

lemma scheduleScore_bounds: "0 \<le> scheduleScore r \<and> scheduleScore r \<le> 1"
  by (simp add: scheduleScore_def)

lemma property_of_cases:
  "property_of table key = Own v \<Longrightarrow> map_of table key = Some v"
  "property_of table key = Inherited name \<Longrightarrow> name = key \<and> key \<in> set Object_prototype"
  "key \<notin> set Object_prototype \<Longrightarrow> property_of table key \<noteq> Inherited name"
  by (auto simp: property_of_def split: option.splits if_splits)

lemma getOperatorScore_own:
  assumes "name \<notin> set Object_prototype"
  shows "\<exists>s. getOperatorScore name = Own s \<and> 0 \<le> s \<and> s \<le> 1"
proof (cases "map_of operator_scores name")
  case None
  with assms have "getOperatorScore name = Own (1 / 2)"
    by (simp add: getOperatorScore_def property_of_def)
  then show ?thesis by (intro exI [of _ "1 / 2"]) simp
next
  case (Some s)
  then have "(name, s) \<in> set operator_scores" by (rule map_of_SomeD)
  then have s: "0 \<le> s \<and> s \<le> 1" by (auto simp: operator_scores_def)
  from Some have "getOperatorScore name = Own (if s = 0 then 1 / 2 else s)"
    by (simp add: getOperatorScore_def property_of_def)
  with s show ?thesis
    by (intro exI [of _ "if s = 0 then 1 / 2 else s"]) simp
qed

lemma weighted_bounds:
  fixes a b c d :: rat
  assumes w: "0 \<le> wa" "0 \<le> wb" "0 \<le> wc" "0 \<le> wd" "wa + wb + wc + wd = 1"
    and f: "0 \<le> a \<and> a \<le> 1" "0 \<le> b \<and> b \<le> 1" "0 \<le> c \<and> c \<le> 1" "0 \<le> d \<and> d \<le> 1"
  shows "0 \<le> wa * a + wb * b + wc * c + wd * d \<and> wa * a + wb * b + wc * c + wd * d \<le> 1"
proof
  show "0 \<le> wa * a + wb * b + wc * c + wd * d"
    using w f by simp
  have "wa * a \<le> wa" "wb * b \<le> wb" "wc * c \<le> wc" "wd * d \<le> wd"
    using w f by (simp_all add: mult_left_le)
  then have "wa * a + wb * b + wc * c + wd * d \<le> wa + wb + wc + wd"
    by linarith
  then show "wa * a + wb * b + wc * c + wd * d \<le> 1"
    using w by simp
qed

lemma score_route_bounds:
  assumes "lop \<le> base_price r" "base_price r \<le> hip"
    and "lod \<le> duration_minutes r" "duration_minutes r \<le> hid"
    and "operator r \<notin> set Object_prototype"
  shows "\<exists>s. score (score_route (weights_for e) lop hip lod hid r) = Some (Num s) \<and> 0 \<le> s \<and> s \<le> 1"
proof -
  from getOperatorScore_own [OF assms(5)] obtain x
    where x: "operatorScore r = Own x" "0 \<le> x \<and> x \<le> 1"
    by (auto simp: operatorScore_def)
  show ?thesis
    unfolding score_route_def
    using weighted_bounds [of "price_weight (weights_for e)" "duration_weight (weights_for e)"
        "schedule_weight (weights_for e)" "operator_weight (weights_for e)"
        "priceScore lop hip r" "durationScore lod hid r" "scheduleScore r" x]
      weights_for_nonneg [of e] weights_for_sum [of e] priceScore_bounds [OF assms(1,2)]
      durationScore_bounds [OF assms(3,4)] scheduleScore_bounds [of r] x
    by simp
qed

lemma scoreRoutes_unfold:
  assumes "routes \<noteq> []"
  shows "scoreRoutes routes e =
     map (score_route (weights_for e) (Min (base_price ` set routes)) (Max (base_price ` set routes))
            (Min (duration_minutes ` set routes)) (Max (duration_minutes ` set routes))) routes"
proof (cases routes)
  case Nil
  with assms show ?thesis by simp
next
  case (Cons r rs)
  then show ?thesis
    by (simp add: scoreRoutes_def minimum_Min maximum_Max Let_def)
qed

text \<open>
  What holds of every candidate list: the routes returned are the candidates, in their order,
  with score and tags written; the cheapest and the fastest are tagged. Where no operator bears
  the name of an inherited member, every score lies between 0 and 1.
\<close>

lemma scoreRoutes_candidates:
  "map (\<lambda>r. r\<lparr>score := None, tags := None\<rparr>) (scoreRoutes routes e)
     = map (\<lambda>r. r\<lparr>score := None, tags := None\<rparr>) routes"
proof (cases "routes = []")
  case True
  then show ?thesis by (simp add: scoreRoutes_def)
next
  case False
  then show ?thesis by (simp add: scoreRoutes_unfold score_route_def comp_def)
qed

lemma scoreRoutes_tags:
  assumes "routes \<noteq> []" and "r \<in> set (scoreRoutes routes e)"
  shows "(base_price r = Min (base_price ` set routes)
            \<longrightarrow> (\<exists>ts. tags r = Some ts \<and> ''cheapest'' \<in> set ts))
       \<and> (duration_minutes r = Min (duration_minutes ` set routes)
            \<longrightarrow> (\<exists>ts. tags r = Some ts \<and> ''fastest'' \<in> set ts))"
  using assms by (auto simp: scoreRoutes_unfold score_route_def)

lemma scoreRoutes_own_operators:
  assumes "routes \<noteq> []" and "\<forall>q \<in> set routes. operator q \<notin> set Object_prototype"
    and "r \<in> set (scoreRoutes routes e)"
  shows "\<exists>s. score r = Some (Num s) \<and> 0 \<le> s \<and> s \<le> 1"
proof -
  let ?lop = "Min (base_price ` set routes)" and ?hip = "Max (base_price ` set routes)"
  let ?lod = "Min (duration_minutes ` set routes)" and ?hid = "Max (duration_minutes ` set routes)"
  from assms(1,3) obtain q where q: "q \<in> set routes"
    and r: "r = score_route (weights_for e) ?lop ?hip ?lod ?hid q"
    by (auto simp: scoreRoutes_unfold)
  have "?lop \<le> base_price q" "base_price q \<le> ?hip"
      "?lod \<le> duration_minutes q" "duration_minutes q \<le> ?hid"
    using q by simp_all
  moreover have "operator q \<notin> set Object_prototype" using q assms(2) by blast
  ultimately show ?thesis unfolding r by (rule score_route_bounds)
qed

text \<open>
  Claim C1 at a candidate list whose first route has the operator name \<open>constructor\<close>: the
  read of the reputation table finds the inherited function, the weighted sum is \<^verbatim>\<open>NaN\<close>,
  and the score of the route is not a number between 0 and 1. The other route is scored as
  usual.
\<close>

theorem scoreRoutes_inherited_operator:
  "map score (scoreRoutes [deccan_express\<lparr>operator := ''constructor''\<rparr>, shivneri] Map.empty)
     = [Some NaN, Some (Num (9 / 50))]"
  by code_simp

subsection \<open>Merging extracted entities into the context\<close>

lemma merge_absent:
  "k \<notin> fst ` set ents \<Longrightarrow> mergeWithContext ents ctx k = ctx k"
  unfolding mergeWithContext_def
  by (induction ents arbitrary: ctx) (auto split: if_splits)

lemma merge_cases:
  "mergeWithContext ents ctx k = ctx k
     \<or> (\<exists>v. (k, v) \<in> set ents \<and> v \<noteq> JNull \<and> v \<noteq> JUndefined
            \<and> mergeWithContext ents ctx k = Some v)"
  unfolding mergeWithContext_def
proof (induction ents arbitrary: ctx)
  case Nil
  then show ?case by simp
next
  case (Cons p ents)
  obtain k' v' where p: "p = (k', v')" by (cases p)
  let ?c = "if v' \<noteq> JNull \<and> v' \<noteq> JUndefined then ctx(k' \<mapsto> v') else ctx"
  from Cons [of ?c] show ?case
    unfolding p by (auto split: if_splits)
qed

lemma put_truthy: "(k', v') \<in> set (put k v) \<Longrightarrow> truthy v'"
  by (simp add: put_def split: if_splits)

lemma extracted_truthy: "(k, v) \<in> set (extracted now message) \<Longrightarrow> truthy v"
  unfolding extracted_def Let_def
  by (auto dest: put_truthy)

text \<open>
  Claim C2. The merge is monotone. A slot that the prior context holds with a non-empty value
  is a slot of the record \<^verbatim>\<open>extractEntities\<close> returns, again with a non-empty value; when
  the extraction found nothing for the slot, the value is the prior one; and the value differs
  from the prior one only when the extraction found a non-empty value, which is then the value
  returned.
\<close>

theorem extractEntities_monotone:
  assumes "prior k = Some v" and "truthy v"
  shows "(\<exists>v'. extractEntities now message prior k = Some v' \<and> truthy v')
       \<and> (k \<notin> fst ` set (extracted now message)
            \<longrightarrow> extractEntities now message prior k = Some v)
       \<and> (extractEntities now message prior k \<noteq> Some v
            \<longrightarrow> (\<exists>v'. (k, v') \<in> set (extracted now message) \<and> truthy v'
                      \<and> extractEntities now message prior k = Some v'))"
proof -
  let ?new = "extracted now message"
  have kept: "k \<notin> fst ` set ?new \<longrightarrow> extractEntities now message prior k = Some v"
    using assms(1) by (simp add: extractEntities_def merge_absent)
  have replaced: "extractEntities now message prior k \<noteq> Some v
      \<longrightarrow> (\<exists>v'. (k, v') \<in> set ?new \<and> truthy v' \<and> extractEntities now message prior k = Some v')"
    using merge_cases [of ?new prior k] assms(1) extracted_truthy [of k _ now message]
    unfolding extractEntities_def by auto
  from replaced assms have "\<exists>v'. extractEntities now message prior k = Some v' \<and> truthy v'"
    by (cases "extractEntities now message prior k = Some v") auto
  with kept replaced show ?thesis by blast
qed

lemma travel_to_pune:
  "extracted example_clock ''travel to Pune tomorrow''
     = [(''destination'', JStr ''Pune''), (''date'', JStr ''2026-11-03'')]"
  by code_simp

theorem extractEntities_monotone_witness:
  "[''origin'' \<mapsto> JStr ''Mumbai''] ''origin'' = Some (JStr ''Mumbai'') \<and> truthy (JStr ''Mumbai'')
   \<and> extractEntities example_clock ''travel to Pune tomorrow'' [''origin'' \<mapsto> JStr ''Mumbai''] ''origin''
       = Some (JStr ''Mumbai'')
   \<and> extractEntities example_clock ''travel to Pune tomorrow'' [''origin'' \<mapsto> JStr ''Mumbai'']
        ''destination'' = Some (JStr ''Pune'')"
proof -
  have h1: "[''origin'' \<mapsto> JStr ''Mumbai''] ''origin'' = Some (JStr ''Mumbai'')" by simp
  have h2: "truthy (JStr ''Mumbai'')" by simp
  from extractEntities_monotone
         [where prior = "[''origin'' \<mapsto> JStr ''Mumbai'']" and k = "''origin''"
            and v = "JStr ''Mumbai''" and now = example_clock
            and message = "''travel to Pune tomorrow''", OF h1 h2]
  have "extractEntities example_clock ''travel to Pune tomorrow'' [''origin'' \<mapsto> JStr ''Mumbai'']
          ''origin'' = Some (JStr ''Mumbai'')"
    by (simp add: travel_to_pune)
  moreover have "extractEntities example_clock ''travel to Pune tomorrow''
      [''origin'' \<mapsto> JStr ''Mumbai''] ''destination'' = Some (JStr ''Pune'')"
    by (simp add: extractEntities_def travel_to_pune mergeWithContext_def)
  ultimately show ?thesis using h1 h2 by simp
qed

subsection \<open>Intent scores\<close>

lemma score_of_assign: "score_of (assign scores k v) k = v"
  by (induction scores k v rule: assign.induct) (auto simp: score_of_def)

lemma score_of_assign_other: "i \<noteq> k \<Longrightarrow> score_of (assign scores k v) i = score_of scores i"
  by (induction scores k v rule: assign.induct) (auto simp: score_of_def)

lemma keys_assign: "k \<in> fst ` set scores \<Longrightarrow> map fst (assign scores k v) = map fst scores"
  by (induction scores k v rule: assign.induct) auto

lemma keys_pattern_scores: "map fst (pattern_scores t) = map fst INTENT_PATTERNS"
  by (simp add: pattern_scores_def case_prod_beta comp_def)

lemma keys_INTENT_PATTERNS:
  "map fst INTENT_PATTERNS = [GREETING, GOODBYE, THANKS, HELP, PRICE_QUERY, SCHEDULE_QUERY,
     COMPARE_ROUTES, SELECT_ROUTE, ROUTE_PREFERENCE, TRAVEL_SEARCH]"
  by (simp add: INTENT_PATTERNS_def)

lemma keys_boost: "map fst (boost e (pattern_scores t)) = map fst INTENT_PATTERNS"
proof -
  have "TRAVEL_SEARCH \<in> fst ` set (pattern_scores t)"
    using keys_pattern_scores [of t] keys_INTENT_PATTERNS
    by (metis list.set_map list.set_intros(1,2))
  then show ?thesis
    by (simp add: boost_def keys_assign keys_pattern_scores)
qed

lemma raw_travel_score:
  "score_of (pattern_scores t) TRAVEL_SEARCH = count_matches travel_patterns t"
  by (simp add: pattern_scores_def INTENT_PATTERNS_def score_of_def)

lemma boosted_travel_score:
  "has_location e \<Longrightarrow>
     score_of (boost e (pattern_scores t)) TRAVEL_SEARCH = count_matches travel_patterns t + 2"
  by (simp add: boost_def score_of_assign raw_travel_score)

lemma boosted_other_score:
  "i \<noteq> TRAVEL_SEARCH \<Longrightarrow> score_of (boost e scores) i = score_of scores i"
  by (simp add: boost_def score_of_assign_other)

lemma fold_pick_ge_start: "m \<le> fst (fold pick scores (m, b))"
proof (induction scores arbitrary: m b)
  case Nil
  then show ?case by simp
next
  case (Cons p scores)
  obtain i n where p: "p = (i, n)" by (cases p)
  show ?case
  proof (cases "n > m")
    case True
    with Cons [of n i] show ?thesis by (simp add: p)
  next
    case False
    with Cons [of m b] show ?thesis by (simp add: p)
  qed
qed

lemma fold_pick_ge_member: "(i, n) \<in> set scores \<Longrightarrow> n \<le> fst (fold pick scores (m, b))"
proof (induction scores arbitrary: m b)
  case Nil
  then show ?case by simp
next
  case (Cons p scores)
  obtain i' n' where p: "p = (i', n')" by (cases p)
  show ?case
  proof (cases "(i, n) = p")
    case True
    then have "fold pick (p # scores) (m, b) = fold pick scores (if n > m then (n, i) else (m, b))"
      by (simp add: p)
    moreover have "n \<le> fst (fold pick scores (if n > m then (n, i) else (m, b)))"
      using fold_pick_ge_start [of n scores i] fold_pick_ge_start [of m scores b]
      by (cases "n > m") auto
    ultimately show ?thesis by simp
  next
    case False
    with Cons.prems have "(i, n) \<in> set scores" by simp
    then show ?thesis
      using Cons.IH [of n' i'] Cons.IH [of m b] by (simp add: p)
  qed
qed

lemma fold_pick_winner:
  "fold pick scores (m, b) = (m', b') \<Longrightarrow> (m' = m \<and> b' = b) \<or> (m < m' \<and> (b', m') \<in> set scores)"
proof (induction scores arbitrary: m b)
  case Nil
  then show ?case by simp
next
  case (Cons p scores)
  obtain i n where p: "p = (i, n)" by (cases p)
  show ?case
  proof (cases "n > m")
    case True
    with Cons.prems have "fold pick scores (n, i) = (m', b')" by (simp add: p)
    from Cons.IH [OF this] True show ?thesis by (auto simp: p)
  next
    case False
    with Cons.prems have "fold pick scores (m, b) = (m', b')" by (simp add: p)
    from Cons.IH [OF this] show ?thesis by (auto simp: p)
  qed
qed

lemma best_of_ge: "score_of scores i \<le> fst (best_of scores)"
proof (cases "map_of scores i")
  case None
  then show ?thesis by (simp add: score_of_def)
next
  case (Some n)
  then have "(i, n) \<in> set scores" by (rule map_of_SomeD)
  then show ?thesis
    using Some by (simp add: score_of_def best_of_def fold_pick_ge_member)
qed

lemma best_of_known:
  assumes "0 < fst (best_of scores)"
  shows "snd (best_of scores) \<in> fst ` set scores"
proof -
  obtain m' b' where eq: "fold pick scores (0, UNKNOWN) = (m', b')"
    by (cases "fold pick scores (0, UNKNOWN)")
  from fold_pick_winner [OF eq] assms eq show ?thesis
    by (auto simp: best_of_def image_iff intro: bexI [of _ "(b', m')"])
qed

lemma boosted_max: "has_location e \<Longrightarrow> 2 \<le> fst (best_of (boost e (pattern_scores t)))"
  using best_of_ge [of "boost e (pattern_scores t)" TRAVEL_SEARCH] boosted_travel_score [of e t]
  by simp

lemma detectIntent_unfold:
  "detectIntent message e =
     (let best = best_of (boost e (pattern_scores (trim (toLowerCase message))))
      in \<lparr>intent = (if fallback_taken message e then TRAVEL_SEARCH else snd best),
          confidence = min (of_nat (fst best) / 3) 1\<rparr>)"
  by (simp add: detectIntent_def fallback_taken_def Let_def case_prod_beta)

lemma fallback_never: "\<not> fallback_taken message e"
  using boosted_max [of e "trim (toLowerCase message)"]
  by (auto simp: fallback_taken_def)

lemma find_trains:
  "detectIntent ''Find trains'' [''origin'' \<mapsto> JStr ''Mumbai'', ''destination'' \<mapsto> JStr ''Pune'']
     = \<lparr>intent = TRAVEL_SEARCH, confidence = 1\<rparr>"
  by code_simp

text \<open>
  Claim C3. When origin or destination is present in the entity record, the score of
  \<open>travel_search\<close> that enters the search for the maximum is its count of matching patterns
  plus 2, the scores of the other intents are their counts, and the intent and the confidence
  returned are those of that maximum. On the text "Find trains" with origin Mumbai and
  destination Pune, the intent returned is \<open>travel_search\<close>.
\<close>

theorem detectIntent_entity_boost:
  "(has_location e \<longrightarrow>
      (let t = trim (toLowerCase message); boosted = boost e (pattern_scores t)
       in score_of boosted TRAVEL_SEARCH = count_matches travel_patterns t + 2
          \<and> (\<forall>i. i \<noteq> TRAVEL_SEARCH \<longrightarrow> score_of boosted i = score_of (pattern_scores t) i)
          \<and> intent (detectIntent message e) = snd (best_of boosted)
          \<and> confidence (detectIntent message e) = min (of_nat (fst (best_of boosted)) / 3) 1
          \<and> count_matches travel_patterns t + 2 \<le> fst (best_of boosted)))
   \<and> intent (detectIntent ''Find trains''
               [''origin'' \<mapsto> JStr ''Mumbai'', ''destination'' \<mapsto> JStr ''Pune'']) = TRAVEL_SEARCH"
proof -
  have "intent (detectIntent ''Find trains''
               [''origin'' \<mapsto> JStr ''Mumbai'', ''destination'' \<mapsto> JStr ''Pune'']) = TRAVEL_SEARCH"
    by (simp only: find_trains detection.simps)
  moreover have "count_matches travel_patterns t + 2 \<le> fst (best_of (boost e (pattern_scores t)))"
    if "has_location e" for t
    using best_of_ge [of "boost e (pattern_scores t)" TRAVEL_SEARCH] boosted_travel_score [OF that, of t]
    by simp
  ultimately show ?thesis
    by (simp add: Let_def boosted_travel_score boosted_other_score detectIntent_unfold fallback_never)
qed

lemma find_trains_count: "count_matches travel_patterns (trim (toLowerCase ''Find trains'')) = 1"
  by code_simp

theorem detectIntent_entity_boost_witness:
  "has_location [''origin'' \<mapsto> JStr ''Mumbai'', ''destination'' \<mapsto> JStr ''Pune'']
   \<and> score_of (boost [''origin'' \<mapsto> JStr ''Mumbai'', ''destination'' \<mapsto> JStr ''Pune'']
                 (pattern_scores (trim (toLowerCase ''Find trains'')))) TRAVEL_SEARCH = 3"
proof -
  have h: "has_location [''origin'' \<mapsto> JStr ''Mumbai'', ''destination'' \<mapsto> JStr ''Pune'']"
    by (simp add: has_location_def field_def)
  from detectIntent_entity_boost
         [of "[''origin'' \<mapsto> JStr ''Mumbai'', ''destination'' \<mapsto> JStr ''Pune'']" "''Find trains''"] h
  have "score_of (boost [''origin'' \<mapsto> JStr ''Mumbai'', ''destination'' \<mapsto> JStr ''Pune'']
                 (pattern_scores (trim (toLowerCase ''Find trains'')))) TRAVEL_SEARCH
          = count_matches travel_patterns (trim (toLowerCase ''Find trains'')) + 2"
    by (simp add: Let_def)
  with h show ?thesis by (simp add: find_trains_count)
qed

text \<open>
  Claim C9. When origin or destination is present in the entity record, the boosted score of
  \<open>travel_search\<close> is at least 2 and the winning score is positive, so the intent returned is
  never \<open>unknown\<close> and the confidence is at least 2/3. The guard of the last branch of
  \<^verbatim>\<open>detectIntent\<close> (winning score at most 0 with a location present) never holds.
\<close>

theorem detectIntent_with_location:
  "(has_location e \<longrightarrow>
      2 \<le> score_of (boost e (pattern_scores (trim (toLowerCase message)))) TRAVEL_SEARCH
    \<and> 0 < fst (best_of (boost e (pattern_scores (trim (toLowerCase message)))))
    \<and> intent (detectIntent message e) \<noteq> UNKNOWN
    \<and> 2 / 3 \<le> confidence (detectIntent message e))
   \<and> \<not> fallback_taken message e"
proof -
  let ?scores = "boost e (pattern_scores (trim (toLowerCase message)))"
  have located: "2 \<le> score_of ?scores TRAVEL_SEARCH \<and> 0 < fst (best_of ?scores)
      \<and> intent (detectIntent message e) \<noteq> UNKNOWN \<and> 2 / 3 \<le> confidence (detectIntent message e)"
    if loc: "has_location e"
  proof -
    have two: "2 \<le> fst (best_of ?scores)" using loc by (rule boosted_max)
    then have "snd (best_of ?scores) \<in> set (map fst ?scores)"
      using best_of_known [of ?scores] by simp
    then have "snd (best_of ?scores) \<in> set [GREETING, GOODBYE, THANKS, HELP, PRICE_QUERY,
        SCHEDULE_QUERY, COMPARE_ROUTES, SELECT_ROUTE, ROUTE_PREFERENCE, TRAVEL_SEARCH]"
      by (simp only: keys_boost keys_INTENT_PATTERNS)
    then have known: "snd (best_of ?scores) \<noteq> UNKNOWN"
      by auto
    have "(2::rat) \<le> of_nat (fst (best_of ?scores))" using two by simp
    then have conf: "2 / 3 \<le> min ((of_nat (fst (best_of ?scores)) :: rat) / 3) 1" by simp
    show ?thesis
      using two known conf loc
      by (simp add: boosted_travel_score detectIntent_unfold fallback_never Let_def)
  qed
  with fallback_never [of message e] show ?thesis by blast
qed

theorem detectIntent_with_location_witness:
  "has_location [''destination'' \<mapsto> JStr ''Pune'']
   \<and> intent (detectIntent ''what can you do'' [''destination'' \<mapsto> JStr ''Pune'']) \<noteq> UNKNOWN
   \<and> 2 / 3 \<le> confidence (detectIntent ''what can you do'' [''destination'' \<mapsto> JStr ''Pune''])"
proof -
  have h: "has_location [''destination'' \<mapsto> JStr ''Pune'']"
    by (simp add: has_location_def field_def)
  with detectIntent_with_location [of "[''destination'' \<mapsto> JStr ''Pune'']" "''what can you do''"]
  show ?thesis by blast
qed

subsection \<open>City names are fixed points\<close>

lemma find_member: "find p xs = Some x \<Longrightarrow> x \<in> set xs"
  by (induction xs) (auto split: if_splits)

lemma partial_match_range:
  assumes "partial_match t = JStr c"
  shows "c \<in> snd ` set CITY_ALIASES"
proof -
  from assms obtain p where p: "find (\<lambda>(alias, city). str_includes t alias
      \<or> str_includes alias t) CITY_ALIASES = Some p" and c: "c = snd p"
    by (auto simp: partial_match_def split: option.splits)
  from p have "p \<in> set CITY_ALIASES" by (rule find_member)
  with c show ?thesis by simp
qed

lemma partial_match_outputs: "partial_match t = JNull \<or> (\<exists>c. partial_match t = JStr c)"
  by (auto simp: partial_match_def split: option.splits)

lemma resolveCity_range:
  assumes "resolveCity s = JStr c"
  shows "c \<in> snd ` set CITY_ALIASES"
proof (cases "property_of CITY_ALIASES (cleaned_text s)")
  case (Own city)
  then have own: "map_of CITY_ALIASES (cleaned_text s) = Some city"
    by (auto simp: property_of_def split: option.splits if_splits)
  show ?thesis
  proof (cases "city = []")
    case True
    with assms Own have "partial_match (cleaned_text s) = JStr c"
      by (simp add: resolveCity_def Let_def split: if_splits)
    then show ?thesis by (rule partial_match_range)
  next
    case False
    with assms Own have "city = c"
      by (simp add: resolveCity_def Let_def split: if_splits)
    with own have "(cleaned_text s, c) \<in> set CITY_ALIASES"
      by (simp add: map_of_SomeD)
    then show ?thesis by force
  qed
next
  case (Inherited name)
  with assms show ?thesis
    by (simp add: resolveCity_def Let_def split: if_splits)
next
  case Absent
  with assms have "partial_match (cleaned_text s) = JStr c"
    by (simp add: resolveCity_def Let_def split: if_splits)
  then show ?thesis by (rule partial_match_range)
qed

lemma resolveCity_outputs:
  "resolveCity s = JNull \<or> (\<exists>c. resolveCity s = JStr c)
     \<or> (\<exists>name. name \<in> set Object_prototype \<and> resolveCity s = JInherited name)"
proof (cases "property_of CITY_ALIASES (cleaned_text s)")
  case (Own city)
  then show ?thesis
    using partial_match_outputs [of "cleaned_text s"]
    by (auto simp: resolveCity_def Let_def)
next
  case (Inherited name)
  then have "name \<in> set Object_prototype"
    by (auto simp: property_of_def split: option.splits if_splits)
  with Inherited show ?thesis
    by (auto simp: resolveCity_def Let_def)
next
  case Absent
  then show ?thesis
    using partial_match_outputs [of "cleaned_text s"]
    by (auto simp: resolveCity_def Let_def)
qed

lemma canonical_fixed:
  "resolveCity ''Mumbai'' = JStr ''Mumbai''" "resolveCity ''Delhi'' = JStr ''Delhi''"
  "resolveCity ''Pune'' = JStr ''Pune''" "resolveCity ''Bangalore'' = JStr ''Bangalore''"
  "resolveCity ''Chennai'' = JStr ''Chennai''" "resolveCity ''Hyderabad'' = JStr ''Hyderabad''"
  "resolveCity ''Kolkata'' = JStr ''Kolkata''" "resolveCity ''Jaipur'' = JStr ''Jaipur''"
  "resolveCity ''Ahmedabad'' = JStr ''Ahmedabad''" "resolveCity ''Goa'' = JStr ''Goa''"
  "resolveCity ''Lucknow'' = JStr ''Lucknow''"
  by code_simp+

lemma city_fixed: "resolveCity s = JStr c \<Longrightarrow> resolveCity c = JStr c"
proof -
  assume "resolveCity s = JStr c"
  then have "c \<in> snd ` set CITY_ALIASES" by (rule resolveCity_range)
  then have "c \<in> {''Mumbai'', ''Delhi'', ''Pune'', ''Bangalore'', ''Chennai'', ''Hyderabad'',
                 ''Kolkata'', ''Jaipur'', ''Ahmedabad'', ''Goa'', ''Lucknow''}"
    by (simp add: CITY_ALIASES_def)
  then show ?thesis using canonical_fixed by blast
qed

text \<open>
  Claim C8. A city name that \<^verbatim>\<open>resolveCity\<close> returns is a fixed point of
  \<^verbatim>\<open>resolveCity\<close>: whenever \<open>resolveCity s\<close> is a city name \<open>c\<close>, \<open>resolveCity c\<close> is
  \<open>c\<close>. Every result is \<^verbatim>\<open>null\<close>, such a name, or a member inherited from
  \<^verbatim>\<open>Object.prototype\<close>, which is no city name.
\<close>

theorem resolveCity_idempotent:
  "(resolveCity s = JStr c \<longrightarrow> resolveCity c = JStr c)
   \<and> (resolveCity s = JNull
       \<or> (\<exists>city. resolveCity s = JStr city \<and> city \<in> snd ` set CITY_ALIASES
                  \<and> resolveCity city = JStr city)
       \<or> (\<exists>name. name \<in> set Object_prototype \<and> resolveCity s = JInherited name))"
  using city_fixed [of s] resolveCity_range [of s] resolveCity_outputs [of s]
  by blast

lemma bombay: "resolveCity ''bombay'' = JStr ''Mumbai''"
  by code_simp

theorem resolveCity_idempotent_witness:
  "resolveCity ''bombay'' = JStr ''Mumbai'' \<and> resolveCity ''Mumbai'' = JStr ''Mumbai''"
  using bombay resolveCity_idempotent [of "''bombay''" "''Mumbai''"] by simp

text \<open>The text "constructor" resolves to the inherited function, not to a city.\<close>

lemma constructor_inherited: "resolveCity ''constructor'' = JInherited ''constructor''"
  by code_simp

subsection \<open>Route selection\<close>

lemma star_iter_nonempty: "star_iter n step g x \<noteq> []"
  by (cases n) (simp_all add: Let_def)

lemma matches_Digit_Cons:
  "matches Digit (pre, c # rest, cs) = (if is_digit c then [(c # pre, rest, cs)] else [])"
  by simp

lemma matches_Digit_Nil: "matches Digit (pre, [], cs) = []"
  by simp

lemma digit_run:
  "length rest \<le> n \<Longrightarrow>
     hd (star_iter n (matches Digit) True (pre, rest, cs))
       = (rev (takeWhile is_digit rest) @ pre, dropWhile is_digit rest, cs)"
proof (induction rest arbitrary: n pre)
  case Nil
  then show ?case by (cases n) (simp_all add: Let_def)
next
  case (Cons c rest)
  then obtain k where n: "n = Suc k" and k: "length rest \<le> k" by (cases n) auto
  show ?case
  proof (cases "is_digit c")
    case True
    from True Cons.IH [OF k, of "c # pre"] show ?thesis
      by (simp add: n Let_def hd_append star_iter_nonempty)
  next
    case False
    then show ?thesis by (simp add: n Let_def)
  qed
qed

lemma take_digits: "take (Suc (length rest) - length (dropWhile is_digit rest)) (c # rest)
    = c # takeWhile is_digit rest"
proof -
  have "length rest - length (dropWhile is_digit rest) = length (takeWhile is_digit rest)"
    by (metis add_diff_cancel_right' length_append takeWhile_dropWhile_id)
  moreover have "length (dropWhile is_digit rest) \<le> length rest"
    by (simp add: length_dropWhile_le)
  ultimately have "Suc (length rest) - length (dropWhile is_digit rest)
      = Suc (length (takeWhile is_digit rest))"
    by simp
  then show ?thesis
    by (simp add: takeWhile_eq_take [symmetric])
qed

lemma number_rx_here:
  "matches number_rx (pre, rest, []) =
     (case rest of
        [] \<Rightarrow> []
      | c # r \<Rightarrow> if is_digit c
                 then map (capture 1 (pre, rest, []))
                        (star_iter (length r) (matches Digit) True (c # pre, r, []))
                 else [])"
  by (cases rest) (simp_all add: number_rx_def plus_rx_def)

lemma number_rx_head:
  assumes "is_digit c"
  shows "\<exists>p q ys. matches number_rx (pre, c # r, []) = (p, q, [(1, takeWhile is_digit (c # r))]) # ys"
proof -
  let ?run = "star_iter (length r) (matches Digit) True (c # pre, r, [])"
  obtain y ys where run: "?run = y # ys"
    using star_iter_nonempty [of "length r" "matches Digit" True "(c # pre, r, [])"]
    by (cases ?run) auto
  have "hd ?run = (rev (takeWhile is_digit r) @ c # pre, dropWhile is_digit r, [])"
    by (rule digit_run) simp
  with run have y: "y = (rev (takeWhile is_digit r) @ c # pre, dropWhile is_digit r, [])"
    by simp
  show ?thesis
    using assms by (simp add: number_rx_here run y take_digits)
qed

lemma search_number:
  "map_option (\<lambda>y. snd (snd y)) (search number_rx pre s)
     = map_option (\<lambda>ds. [(1, ds)]) (first_integer_literal s)"
proof (induction s arbitrary: pre)
  case Nil
  then show ?case by (simp add: number_rx_here first_integer_literal_def)
next
  case (Cons c s)
  show ?case
  proof (cases "is_digit c")
    case True
    from number_rx_head [OF True, of pre s] obtain p q ys
      where "matches number_rx (pre, c # s, []) = (p, q, [(1, takeWhile is_digit (c # s))]) # ys"
      by blast
    then show ?thesis
      using True by (simp add: first_integer_literal_def)
  next
    case False
    then have none: "matches number_rx (pre, c # s, []) = []"
      by (simp add: number_rx_here)
    have lit: "first_integer_literal (c # s) = first_integer_literal s"
      using False by (simp add: first_integer_literal_def)
    show ?thesis
      using Cons [of "c # pre"] by (simp add: none lit)
  qed
qed

lemma match_number:
  "map_option (\<lambda>g. group g 1) (rx_match number_rx s) = first_integer_literal s"
proof (cases "search number_rx [] s")
  case None
  with search_number [of "[]" s] show ?thesis
    by (simp add: rx_match_def)
next
  case (Some y)
  obtain p q cs where y: "y = (p, q, cs)" by (cases y)
  from search_number [of "[]" s] Some y obtain ds
    where "first_integer_literal s = Some ds" and "cs = [(1, ds)]"
    by (cases "first_integer_literal s") auto
  with Some y show ?thesis
    by (simp add: rx_match_def group_def)
qed

lemma first_integer_literal_digits:
  "first_integer_literal s = Some ds \<Longrightarrow> ds \<noteq> [] \<and> (\<forall>c \<in> set ds. is_digit c)"
proof -
  assume a: "first_integer_literal s = Some ds"
  let ?rest = "dropWhile (\<lambda>c. \<not> is_digit c) s"
  from a have rest: "?rest \<noteq> []" and ds: "ds = takeWhile is_digit ?rest"
    by (auto simp: first_integer_literal_def Let_def split: if_splits)
  from rest have "is_digit (hd ?rest)"
    using hd_dropWhile [of "\<lambda>c. \<not> is_digit c" s] by simp
  with rest have "ds \<noteq> []" unfolding ds by (cases ?rest) auto
  moreover have "\<forall>c \<in> set ds. is_digit c"
    unfolding ds by (auto dest: set_takeWhileD)
  ultimately show ?thesis by simp
qed

lemma digit_facts:
  assumes "is_digit c"
  shows "\<not> is_space c" "c \<noteq> CHR ''-''" "c \<noteq> CHR ''+''" "toLower c \<noteq> CHR ''x''" "toLower c = c"
  using assms
  by (auto simp: is_digit_def is_space_def toLower_def is_upper_def code_unit_def Let_def)

lemma takeWhile_all: "\<forall>c \<in> set ds. P c \<Longrightarrow> takeWhile P ds = ds"
  by (induction ds) auto

lemma unsigned_digits:
  assumes "ds \<noteq> []" and "\<forall>c \<in> set ds. is_digit c"
  shows "unsigned ds = Some (int (decimal ds))"
proof -
  have "take 2 (map toLower ds) \<noteq> ''0x''"
  proof (cases ds)
    case Nil
    then show ?thesis by simp
  next
    case (Cons a as)
    show ?thesis
    proof (cases as)
      case Nil
      with Cons show ?thesis by simp
    next
      case (Cons b bs)
      with \<open>ds = a # as\<close> assms(2) have "is_digit b" by simp
      then have "toLower b \<noteq> CHR ''x''" by (rule digit_facts)
      with Cons \<open>ds = a # as\<close> show ?thesis by simp
    qed
  qed
  then show ?thesis
    using assms by (simp add: unsigned_def number_of_def decimal_def takeWhile_all)
qed

lemma parseInt_digits:
  assumes "ds \<noteq> []" and "\<forall>c \<in> set ds. is_digit c"
  shows "parseInt ds = Some (int (decimal ds))"
proof -
  from assms obtain c rest where ds: "ds = c # rest" and c: "is_digit c"
    by (cases ds) auto
  have "dropWhile is_space ds = ds"
    using digit_facts(1) [OF c] by (simp add: ds)
  then show ?thesis
    using digit_facts(2,3) [OF c] unsigned_digits [OF assms]
    by (simp add: parseInt_def ds)
qed

lemma selection_index:
  "(case rx_match number_rx message of
      None \<Rightarrow> None
    | Some numMatch \<Rightarrow> parseInt (group numMatch 1))
   = map_option (\<lambda>ds. int (decimal ds)) (first_integer_literal message)"
proof (cases "rx_match number_rx message")
  case None
  with match_number [of message] show ?thesis by simp
next
  case (Some g)
  with match_number [of message] have lit: "first_integer_literal message = Some (group g 1)"
    by simp
  from first_integer_literal_digits [OF lit] have "parseInt (group g 1) = Some (int (decimal (group g 1)))"
    by (intro parseInt_digits) simp_all
  with Some lit show ?thesis by simp
qed

lemma handleRouteSelection_unfold:
  "handleRouteSelection ss sid message =
     (case lastRoutes (session_of ss sid) of
        None \<Rightarrow> NothingToSelect
      | Some routes \<Rightarrow>
          if routes = [] then NothingToSelect
          else (case (case rx_match number_rx message of
                        None \<Rightarrow> None
                      | Some numMatch \<Rightarrow> parseInt (group numMatch 1)) of
                  None \<Rightarrow> SelectValidOption (length routes)
                | Some n \<Rightarrow> if n - 1 \<ge> 0 \<and> n - 1 < int (length routes)
                            then RouteDetails (routes ! nat (n - 1))
                            else SelectValidOption (length routes)),
      snd (getContext ss sid))"
  by (simp add: handleRouteSelection_def session_of_def Let_def case_prod_beta
      split: option.splits)

lemma option_2: "first_integer_literal ''option 2'' = Some ''2''"
  by code_simp

text \<open>
  Claim C6. The handler of \<open>select_route\<close> reads the first integer literal of the raw message
  as an index into \<^verbatim>\<open>lastRoutes\<close> that counts from 1. With no stored routes the answer is
  that there is nothing to select; with no integer or an index outside \<open>1..N\<close> it is the prompt
  that names the range \<open>1..N\<close>; with an index in the range it is the detail card of that
  route. The text "option 2" against one stored route gives the prompt.
\<close>

theorem handleRouteSelection_first_integer:
  "fst (handleRouteSelection ss sid message) =
     (case lastRoutes (session_of ss sid) of
        None \<Rightarrow> NothingToSelect
      | Some routes \<Rightarrow>
          if routes = [] then NothingToSelect
          else (case first_integer_literal message of
                  None \<Rightarrow> SelectValidOption (length routes)
                | Some ds \<Rightarrow>
                    if 1 \<le> decimal ds \<and> decimal ds \<le> length routes
                    then RouteDetails (routes ! (decimal ds - 1))
                    else SelectValidOption (length routes)))
   \<and> fst (handleRouteSelection one_route_sessions ''s1'' ''option 2'') = SelectValidOption 1"
proof -
  have index: "(n - 1 \<ge> 0 \<and> n - 1 < int k) = (1 \<le> d \<and> d \<le> k)" "nat (n - 1) = d - 1"
    if "n = int d" for n :: int and d k :: nat
    using that by auto
  have general: "fst (handleRouteSelection ss sid message) =
     (case lastRoutes (session_of ss sid) of
        None \<Rightarrow> NothingToSelect
      | Some routes \<Rightarrow>
          if routes = [] then NothingToSelect
          else (case first_integer_literal message of
                  None \<Rightarrow> SelectValidOption (length routes)
                | Some ds \<Rightarrow>
                    if 1 \<le> decimal ds \<and> decimal ds \<le> length routes
                    then RouteDetails (routes ! (decimal ds - 1))
                    else SelectValidOption (length routes)))" for ss sid message
    unfolding handleRouteSelection_unfold selection_index
    by (simp add: index split: option.splits)
  have "fst (handleRouteSelection one_route_sessions ''s1'' ''option 2'') = SelectValidOption 1"
    unfolding general
    by (simp add: option_2 one_route_sessions_def session_of_def getContext_def decimal_def
        digit_val_def code_unit_def)
  with general show ?thesis by simp
qed

lemma take_1: "first_integer_literal ''I will take 1 please'' = Some ''1''"
  by code_simp

theorem handleRouteSelection_first_integer_witness:
  "fst (handleRouteSelection one_route_sessions ''s1'' ''I will take 1 please'') = RouteDetails deccan_express"
  using handleRouteSelection_first_integer [of one_route_sessions "''s1''" "''I will take 1 please''"]
  by (simp add: take_1 one_route_sessions_def session_of_def getContext_def decimal_def
      digit_val_def code_unit_def)

subsection \<open>Updates of a session\<close>

lemma getContext_again:
  "getContext (snd (getContext ss sid)) sid = (fst (getContext ss sid), snd (getContext ss sid))"
  by (simp add: getContext_def split: option.splits)

lemma getContext_present: "ss sid = Some c \<Longrightarrow> getContext ss sid = (c, ss)"
  by (simp add: getContext_def)

lemma getContext_stores: "snd (getContext ss sid) sid = Some (session_of ss sid)"
  by (simp add: getContext_def session_of_def split: option.splits)

lemma session_of_getContext: "session_of (snd (getContext ss sid)) sid = session_of ss sid"
  by (simp add: session_of_def getContext_again)

lemma updateContext_getContext:
  "updateContext (snd (getContext ss sid)) sid u = updateContext ss sid u"
  by (simp add: updateContext_def getContext_again case_prod_beta)

lemma updateContext_stores:
  "snd (updateContext ss sid u) sid = Some (fst (updateContext ss sid u))"
  by (simp add: updateContext_def Let_def case_prod_beta)

lemma session_of_updateContext:
  "session_of (snd (updateContext ss sid u)) sid = fst (updateContext ss sid u)"
  by (simp add: session_of_def getContext_def updateContext_stores)

lemma updateContext_fields:
  "turnCount (fst (updateContext ss sid u)) = turnCount (session_of ss sid) + 1"
  "entities (fst (updateContext ss sid u)) =
     (case upd_entities u of None \<Rightarrow> entities (session_of ss sid)
      | Some e \<Rightarrow> entities (session_of ss sid) ++ e)"
  "lastIntent (fst (updateContext ss sid u)) =
     (case upd_lastIntent u of None \<Rightarrow> lastIntent (session_of ss sid) | Some i \<Rightarrow> Some i)"
  "state (fst (updateContext ss sid u)) =
     (case upd_state u of None \<Rightarrow> state (session_of ss sid) | Some p \<Rightarrow> p)"
  "lastRoutes (fst (updateContext ss sid u)) =
     (case upd_lastRoutes u of None \<Rightarrow> lastRoutes (session_of ss sid) | Some rs \<Rightarrow> Some rs)"
  "history (fst (updateContext ss sid u)) =
     (case upd_message u of None \<Rightarrow> history (session_of ss sid)
      | Some t \<Rightarrow> pushed (history (session_of ss sid)) t)"
  by (simp_all add: updateContext_def session_of_def Let_def case_prod_beta split: option.splits)

lemma turnCount_getContext:
  "turnCount (session_of (snd (getContext ss sid)) sid) = turnCount (session_of ss sid)"
  by (simp add: session_of_getContext)

lemma turnCount_updateContext:
  "turnCount (session_of (snd (updateContext ss sid u)) sid) = turnCount (session_of ss sid) + 1"
  by (simp add: session_of_updateContext updateContext_fields)

subsection \<open>Saving a turn\<close>

lemma saveMessage_catches:
  "save_block env sid who what meta k w = Inl (err, w1) \<Longrightarrow>
     saveMessage env sid who what meta k w
       = Inr ((), w1\<lparr>console := console w1 @ [''Failed to save message: '' @ message_of err]\<rparr>)"
  by (simp add: saveMessage_def try_catch_def console_error_def)

lemma saveMessage_passes:
  "save_block env sid who what meta k w = Inr r \<Longrightarrow> saveMessage env sid who what meta k w = Inr r"
  by (simp add: saveMessage_def try_catch_def)

lemma save_block_sessions:
  "save_block env sid who what meta k w = Inl (err, w1) \<Longrightarrow> sessions w1 = sessions w"
  "save_block env sid who what meta k w = Inr (u, w2) \<Longrightarrow> sessions w2 = sessions w"
  by (auto simp: save_block_def split: sum.splits if_splits prod.splits)

lemma saveMessage_returns:
  "\<exists>w'. saveMessage env sid who what meta k w = Inr ((), w') \<and> sessions w' = sessions w"
proof (cases "save_block env sid who what meta k w")
  case (Inl a)
  obtain err w1 where a: "a = (err, w1)" by (cases a)
  with Inl save_block_sessions(1) [of env sid who what meta k w err w1] show ?thesis
    by (simp add: saveMessage_catches)
next
  case (Inr b)
  obtain u w2 where b: "b = (u, w2)" by (cases b)
  with Inr save_block_sessions(2) [of env sid who what meta k w u w2] show ?thesis
    by (simp add: saveMessage_passes)
qed

lemma save_both:
  "\<exists>w2. (case saveMessage env sid a b c 0 w of
           Inl failure \<Rightarrow> Inl failure
         | Inr (u, w1) \<Rightarrow>
             (case saveMessage env sid a' b' c' 1 w1 of
                Inl failure \<Rightarrow> Inl failure
              | Inr (u, w2) \<Rightarrow> Inr (res, w2))) = Inr (res, w2)
       \<and> sessions w2 = sessions w"
proof -
  obtain w1 where w1: "saveMessage env sid a b c 0 w = Inr ((), w1)" "sessions w1 = sessions w"
    using saveMessage_returns by blast
  obtain w2 where w2: "saveMessage env sid a' b' c' 1 w1 = Inr ((), w2)" "sessions w2 = sessions w1"
    using saveMessage_returns by blast
  from w1 w2 show ?thesis by simp
qed

subsection \<open>Processing a message\<close>

lemma processMessage_throws:
  assumes "dispatch env (after_user_turn env sid message w) sid message
             (turn_entities env sid message w) (turn_intent env sid message w) = (Inl err, ss)"
  shows "processMessage env sid message w = Inl (err, w\<lparr>sessions := ss\<rparr>)"
  using assms
  by (simp add: processMessage_def after_user_turn_def turn_entities_def turn_intent_def
      session_of_def updateContext_getContext Let_def case_prod_beta)

lemma processMessage_returns:
  assumes "dispatch env (after_user_turn env sid message w) sid message
             (turn_entities env sid message w) (turn_intent env sid message w)
           = (Inr (response, routes), ss)"
  shows "\<exists>w'. processMessage env sid message w =
           Inr (\<lparr>response_text = response,
                 metadata = \<lparr>intent = turn_intent env sid message w,
                              confidence = confidence (detectIntent message (turn_entities env sid message w)),
                              meta_entities = turn_entities env sid message w,
                              meta_routes = routes\<rparr>,
                 sessionId = sid\<rparr>, w')
         \<and> sessions w' = snd (updateContext ss sid
                                 (no_updates\<lparr>upd_message := Some (assistant_turn env response)\<rparr>))"
proof -
  let ?meta = "\<lparr>intent = turn_intent env sid message w,
                  confidence = confidence (detectIntent message (turn_entities env sid message w)),
                  meta_entities = turn_entities env sid message w, meta_routes = routes\<rparr>"
  let ?res = "\<lparr>response_text = response, metadata = ?meta, sessionId = sid\<rparr>"
  let ?w = "w\<lparr>sessions := snd (updateContext ss sid
                (no_updates\<lparr>upd_message := Some (assistant_turn env response)\<rparr>))\<rparr>"
  obtain w1 where w1: "saveMessage env sid ''user'' (Text message) (Some ?meta) 0 ?w = Inr ((), w1)"
      "sessions w1 = sessions ?w"
    using saveMessage_returns by blast
  obtain w2 where w2: "saveMessage env sid ''assistant'' (Reply response) None 1 w1 = Inr ((), w2)"
      "sessions w2 = sessions w1"
    using saveMessage_returns by blast
  have "processMessage env sid message w = Inr (?res, w2)"
    using assms w1(1) w2(1)
    unfolding after_user_turn_def turn_entities_def turn_intent_def session_of_def
    by (simp add: processMessage_def updateContext_getContext Let_def case_prod_beta)
  with w1(2) w2(2) show ?thesis by simp
qed

lemma dispatch_db:
  "dispatch (env\<lparr>queryOne := q, runSql := r\<rparr>) ss sid message e i = dispatch env ss sid message e i"
  by (cases i) simp_all

lemma turn_db:
  "turn_entities (env\<lparr>queryOne := q, runSql := r\<rparr>) sid message (w\<lparr>db := d\<rparr>)
     = turn_entities env sid message w"
  "turn_intent (env\<lparr>queryOne := q, runSql := r\<rparr>) sid message (w\<lparr>db := d\<rparr>)
     = turn_intent env sid message w"
  "after_user_turn (env\<lparr>queryOne := q, runSql := r\<rparr>) sid message (w\<lparr>db := d\<rparr>)
     = after_user_turn env sid message w"
  "assistant_turn (env\<lparr>queryOne := q, runSql := r\<rparr>) response = assistant_turn env response"
  by (simp_all add: turn_entities_def turn_intent_def after_user_turn_def assistant_turn_def
      user_turn_def)

lemma processMessage_db:
  "returned (processMessage (env\<lparr>queryOne := q, runSql := r\<rparr>) sid message (w\<lparr>db := d\<rparr>))
     = returned (processMessage env sid message w)
   \<and> sessions (world_after (processMessage (env\<lparr>queryOne := q, runSql := r\<rparr>) sid message (w\<lparr>db := d\<rparr>)))
     = sessions (world_after (processMessage env sid message w))"
proof -
  let ?env = "env\<lparr>queryOne := q, runSql := r\<rparr>" and ?w = "w\<lparr>db := d\<rparr>"
  obtain out ss where D: "dispatch env (after_user_turn env sid message w) sid message
             (turn_entities env sid message w) (turn_intent env sid message w) = (out, ss)"
    by (cases "dispatch env (after_user_turn env sid message w) sid message
             (turn_entities env sid message w) (turn_intent env sid message w)")
  then have D': "dispatch ?env (after_user_turn ?env sid message ?w) sid message
             (turn_entities ?env sid message ?w) (turn_intent ?env sid message ?w) = (out, ss)"
    by (simp only: dispatch_db turn_db)
  show ?thesis
  proof (cases out)
    case (Inl err)
    from processMessage_throws [OF D [unfolded Inl]] processMessage_throws [OF D' [unfolded Inl]]
    show ?thesis by (simp add: returned_def world_after_def)
  next
    case (Inr b)
    obtain response routes where b: "b = (response, routes)" by (cases b)
    from processMessage_returns [OF D [unfolded Inr b]] obtain w1 where
      w1: "processMessage env sid message w =
           Inr (\<lparr>response_text = response,
                 metadata = \<lparr>intent = turn_intent env sid message w,
                              confidence = confidence (detectIntent message (turn_entities env sid message w)),
                              meta_entities = turn_entities env sid message w,
                              meta_routes = routes\<rparr>,
                 sessionId = sid\<rparr>, w1)"
      "sessions w1 = snd (updateContext ss sid
                                 (no_updates\<lparr>upd_message := Some (assistant_turn env response)\<rparr>))"
      by blast
    from processMessage_returns [OF D' [unfolded Inr b]] obtain w2 where
      w2: "processMessage ?env sid message ?w =
           Inr (\<lparr>response_text = response,
                 metadata = \<lparr>intent = turn_intent ?env sid message ?w,
                              confidence = confidence (detectIntent message (turn_entities ?env sid message ?w)),
                              meta_entities = turn_entities ?env sid message ?w,
                              meta_routes = routes\<rparr>,
                 sessionId = sid\<rparr>, w2)"
      "sessions w2 = snd (updateContext ss sid
                                 (no_updates\<lparr>upd_message := Some (assistant_turn ?env response)\<rparr>))"
      by blast
    from w1 w2 show ?thesis
      by (simp add: returned_def world_after_def turn_db)
  qed
qed

text \<open>
  Claim C7. When the append of a turn throws inside \<^verbatim>\<open>saveMessage\<close>, the error is caught
  and written to the console, and \<^verbatim>\<open>saveMessage\<close> returns; it never throws and never
  touches the sessions. What \<^verbatim>\<open>processMessage\<close> returns (or throws), and the sessions it
  leaves, are the same whatever the SQL layer does and whatever the database holds.
\<close>

theorem persistence_failure_not_surfaced:
  "(save_block env sid who what meta k w = Inl (err, w1) \<longrightarrow>
      saveMessage env sid who what meta k w
        = Inr ((), w1\<lparr>console := console w1 @ [''Failed to save message: '' @ message_of err]\<rparr>))
   \<and> (\<exists>w'. saveMessage env sid who what meta k w = Inr ((), w') \<and> sessions w' = sessions w)
   \<and> returned (processMessage (env\<lparr>queryOne := q, runSql := r\<rparr>) sid message (w\<lparr>db := d\<rparr>))
       = returned (processMessage env sid message w)
   \<and> sessions (world_after (processMessage (env\<lparr>queryOne := q, runSql := r\<rparr>) sid message (w\<lparr>db := d\<rparr>)))
       = sessions (world_after (processMessage env sid message w))"
  using saveMessage_catches [where env = env and sid = sid and who = who and what = what
        and meta = meta and k = k and w = w and err = err and ?w1.0 = w1]
    saveMessage_returns [where env = env and sid = sid and who = who and what = what
        and meta = meta and k = k and w = w]
    processMessage_db [where env = env and q = q and r = r and sid = sid and message = message
        and w = w and d = d]
  by blast

lemma disk_full:
  "save_block failing_env ''s1'' ''user'' (Text ''help'') None 0 fresh_world
     = Inl (Error ''disk full'', fresh_world)"
  by (simp add: save_block_def failing_env_def working_env_def fresh_world_def)

theorem persistence_failure_not_surfaced_witness:
  "save_block failing_env ''s1'' ''user'' (Text ''help'') None 0 fresh_world
     = Inl (Error ''disk full'', fresh_world)
   \<and> saveMessage failing_env ''s1'' ''user'' (Text ''help'') None 0 fresh_world
       = Inr ((), fresh_world\<lparr>console := [''Failed to save message: disk full'']\<rparr>)
   \<and> returned (processMessage failing_env ''s1'' ''help'' fresh_world)
       = returned (processMessage working_env ''s1'' ''help'' fresh_world)"
proof -
  let ?q = "\<lambda>(d::nat) (q::string) (ps::sqlval list). (Inr None :: exn + string list option)"
  let ?r = "\<lambda>(d::nat) (q::string) (ps::sqlval list). (Inl (Error ''disk full'', d) :: exn \<times> nat + nat)"
  have same: "working_env\<lparr>queryOne := ?q, runSql := ?r\<rparr> = failing_env"
    by (simp add: failing_env_def)
  have world: "fresh_world\<lparr>db := 0\<rparr> = fresh_world"
    by (simp add: fresh_world_def)
  have caught: "saveMessage failing_env ''s1'' ''user'' (Text ''help'') None 0 fresh_world
      = Inr ((), fresh_world\<lparr>console := console fresh_world
                 @ [''Failed to save message: '' @ message_of (Error ''disk full'')]\<rparr>)"
    using disk_full
      persistence_failure_not_surfaced
        [where env = failing_env and sid = "''s1''" and who = "''user''" and what = "Text ''help''"
           and meta = None and k = 0 and w = fresh_world and err = "Error ''disk full''"
           and ?w1.0 = fresh_world and q = ?q and r = ?r and message = "''help''" and d = 0]
    by blast
  have unseen: "returned (processMessage (working_env\<lparr>queryOne := ?q, runSql := ?r\<rparr>) ''s1'' ''help''
                   (fresh_world\<lparr>db := 0\<rparr>))
      = returned (processMessage working_env ''s1'' ''help'' fresh_world)"
    using persistence_failure_not_surfaced
        [where env = working_env and sid = "''s1''" and who = "''user''" and what = "Text ''help''"
           and meta = None and k = 0 and w = fresh_world and err = "Error ''disk full''"
           and ?w1.0 = fresh_world and q = ?q and r = ?r and message = "''help''" and d = 0]
    by blast
  from caught have "saveMessage failing_env ''s1'' ''user'' (Text ''help'') None 0 fresh_world
      = Inr ((), fresh_world\<lparr>console := [''Failed to save message: disk full'']\<rparr>)"
    by (simp add: fresh_world_def)
  with disk_full unseen show ?thesis
    by (simp only: same world simp_thms)
qed

subsection \<open>A turn that selects a route\<close>

lemma handleRouteSelection_sessions:
  "snd (handleRouteSelection ss sid message) = snd (getContext ss sid)"
  by (simp add: handleRouteSelection_unfold)

lemma after_user_turn_stores:
  "after_user_turn env sid message w sid = Some (session_of (after_user_turn env sid message w) sid)"
  by (simp add: after_user_turn_def updateContext_stores session_of_updateContext)

lemma dispatch_select:
  assumes "ss sid = Some c"
  shows "dispatch env ss sid message e SELECT_ROUTE
     = (Inr (fst (handleRouteSelection ss sid message), None), ss)"
proof -
  have "snd (handleRouteSelection ss sid message) = ss"
    using assms by (simp add: handleRouteSelection_sessions getContext_present)
  then show ?thesis
    by (cases "handleRouteSelection ss sid message") simp
qed

lemma after_user_turn_fields:
  "turnCount (session_of (after_user_turn env sid message w) sid)
     = turnCount (session_of (sessions w) sid) + 1"
  "state (session_of (after_user_turn env sid message w) sid) = state (session_of (sessions w) sid)"
  "lastRoutes (session_of (after_user_turn env sid message w) sid)
     = lastRoutes (session_of (sessions w) sid)"
  "entities (session_of (after_user_turn env sid message w) sid)
     = entities (session_of (sessions w) sid) ++ turn_entities env sid message w"
  "lastIntent (session_of (after_user_turn env sid message w) sid)
     = Some (turn_intent env sid message w)"
  "history (session_of (after_user_turn env sid message w) sid)
     = pushed (history (session_of (sessions w) sid)) (user_turn env message)"
  by (simp_all add: after_user_turn_def session_of_updateContext updateContext_fields no_updates_def)

lemma reply_fields:
  "turnCount (session_of (snd (updateContext ss sid (no_updates\<lparr>upd_message := Some t\<rparr>))) sid)
     = turnCount (session_of ss sid) + 1"
  "state (session_of (snd (updateContext ss sid (no_updates\<lparr>upd_message := Some t\<rparr>))) sid)
     = state (session_of ss sid)"
  "lastRoutes (session_of (snd (updateContext ss sid (no_updates\<lparr>upd_message := Some t\<rparr>))) sid)
     = lastRoutes (session_of ss sid)"
  "entities (session_of (snd (updateContext ss sid (no_updates\<lparr>upd_message := Some t\<rparr>))) sid)
     = entities (session_of ss sid)"
  "lastIntent (session_of (snd (updateContext ss sid (no_updates\<lparr>upd_message := Some t\<rparr>))) sid)
     = lastIntent (session_of ss sid)"
  "history (session_of (snd (updateContext ss sid (no_updates\<lparr>upd_message := Some t\<rparr>))) sid)
     = pushed (history (session_of ss sid)) t"
  by (simp_all add: session_of_updateContext updateContext_fields no_updates_def)

text \<open>
  Claim C10. A turn whose intent is \<open>select_route\<close> returns and leaves the phase and
  \<^verbatim>\<open>lastRoutes\<close> of the session as they were; the turn merges the entities, sets
  \<^verbatim>\<open>lastIntent\<close>, counts two context updates and appends the two turns to the history.
  The handler itself leaves every stored session as it is.
\<close>

theorem select_route_frame:
  "(turn_intent env sid message w = SELECT_ROUTE \<longrightarrow>
      (\<exists>res w'. processMessage env sid message w = Inr (res, w')
         \<and> sessions w' sid \<noteq> None
         \<and> state (session_of (sessions w') sid) = state (session_of (sessions w) sid)
         \<and> lastRoutes (session_of (sessions w') sid) = lastRoutes (session_of (sessions w) sid)
         \<and> entities (session_of (sessions w') sid)
             = entities (session_of (sessions w) sid) ++ turn_entities env sid message w
         \<and> lastIntent (session_of (sessions w') sid) = Some SELECT_ROUTE
         \<and> turnCount (session_of (sessions w') sid) = turnCount (session_of (sessions w) sid) + 2
         \<and> history (session_of (sessions w') sid)
             = pushed (pushed (history (session_of (sessions w) sid)) (user_turn env message))
                 (assistant_turn env (response_text res))))
   \<and> (\<forall>ss c. ss sid = Some c \<longrightarrow> snd (handleRouteSelection ss sid message) = ss)"
proof -
  have handler: "\<forall>ss c. ss sid = Some c \<longrightarrow> snd (handleRouteSelection ss sid message) = ss"
    by (simp add: handleRouteSelection_sessions getContext_present)
  have turn: "\<exists>res w'. processMessage env sid message w = Inr (res, w')
         \<and> sessions w' sid \<noteq> None
         \<and> state (session_of (sessions w') sid) = state (session_of (sessions w) sid)
         \<and> lastRoutes (session_of (sessions w') sid) = lastRoutes (session_of (sessions w) sid)
         \<and> entities (session_of (sessions w') sid)
             = entities (session_of (sessions w) sid) ++ turn_entities env sid message w
         \<and> lastIntent (session_of (sessions w') sid) = Some SELECT_ROUTE
         \<and> turnCount (session_of (sessions w') sid) = turnCount (session_of (sessions w) sid) + 2
         \<and> history (session_of (sessions w') sid)
             = pushed (pushed (history (session_of (sessions w) sid)) (user_turn env message))
                 (assistant_turn env (response_text res))"
    if sel: "turn_intent env sid message w = SELECT_ROUTE"
  proof -
    let ?ss = "after_user_turn env sid message w"
    let ?response = "fst (handleRouteSelection ?ss sid message)"
    have "dispatch env ?ss sid message (turn_entities env sid message w)
            (turn_intent env sid message w) = (Inr (?response, None), ?ss)"
      unfolding sel by (rule dispatch_select [OF after_user_turn_stores])
    from processMessage_returns [OF this] obtain w' where
      w': "processMessage env sid message w =
           Inr (\<lparr>response_text = ?response,
                 metadata = \<lparr>intent = turn_intent env sid message w,
                              confidence = confidence (detectIntent message (turn_entities env sid message w)),
                              meta_entities = turn_entities env sid message w,
                              meta_routes = None\<rparr>,
                 sessionId = sid\<rparr>, w')"
      "sessions w' = snd (updateContext ?ss sid
                            (no_updates\<lparr>upd_message := Some (assistant_turn env ?response)\<rparr>))"
      by blast
    show ?thesis
      using w'(1)
      by (simp add: w'(2) reply_fields after_user_turn_fields updateContext_stores sel)
  qed
  from handler turn show ?thesis by blast
qed

lemma option_2_intent: "turn_intent working_env ''s1'' ''option 2'' one_route_world = SELECT_ROUTE"
  by code_simp

theorem select_route_frame_witness:
  "turn_intent working_env ''s1'' ''option 2'' one_route_world = SELECT_ROUTE
   \<and> (\<exists>res w'. processMessage working_env ''s1'' ''option 2'' one_route_world = Inr (res, w')
         \<and> state (session_of (sessions w') ''s1'') = showing_results
         \<and> lastRoutes (session_of (sessions w') ''s1'') = Some [deccan_express])"
proof -
  have before: "state (session_of (sessions one_route_world) ''s1'') = showing_results"
      "lastRoutes (session_of (sessions one_route_world) ''s1'') = Some [deccan_express]"
    by (simp_all add: one_route_world_def one_route_sessions_def session_of_def getContext_def)
  from select_route_frame [of working_env "''s1''" "''option 2''" one_route_world] option_2_intent
  obtain res w' where "processMessage working_env ''s1'' ''option 2'' one_route_world = Inr (res, w')"
    and "state (session_of (sessions w') ''s1'') = state (session_of (sessions one_route_world) ''s1'')"
    and "lastRoutes (session_of (sessions w') ''s1'')
           = lastRoutes (session_of (sessions one_route_world) ''s1'')"
    by blast
  with before option_2_intent show ?thesis by auto
qed

subsection \<open>The turn counter\<close>

lemma travel_turnCount:
  "turnCount (session_of ss sid) \<le> turnCount (session_of (snd (handleTravelQuery look ss sid e)) sid)"
  by (simp add: handleTravelQuery_def getMissingEntities_def state_update_def Let_def case_prod_beta
      turnCount_updateContext turnCount_getContext updateContext_getContext split: sum.splits)

lemma travel_reply_turnCount:
  "turnCount (session_of ss sid) \<le> turnCount (session_of (snd (travel_reply look ss sid e)) sid)"
proof (cases "handleTravelQuery look ss sid e")
  case (Pair out ss')
  with travel_turnCount [of ss sid look e]
  have le: "turnCount (session_of ss sid) \<le> turnCount (session_of ss' sid)" by simp
  show ?thesis
    using le Pair
    by (cases out) (simp_all add: travel_reply_def case_prod_beta turnCount_getContext)
qed

lemma plain_sessions: "snd (plain r) = snd r"
  by (cases r) (auto simp: plain_def split: sum.splits)

lemma compare_turnCount:
  "turnCount (session_of ss sid) \<le> turnCount (session_of (snd (handleCompareRoutes look ss sid e)) sid)"
  using travel_turnCount [of "snd (getContext ss sid)" sid look e]
  by (simp add: handleCompareRoutes_def case_prod_beta turnCount_getContext)

lemma preference_turnCount:
  "turnCount (session_of ss sid) \<le> turnCount (session_of (snd (handlePreference look ss sid e)) sid)"
  using travel_turnCount [of "snd (getContext ss sid)" sid look e]
  by (simp add: handlePreference_def case_prod_beta turnCount_getContext)

lemma dispatch_turnCount:
  assumes "i \<noteq> GOODBYE"
  shows "turnCount (session_of ss sid)
           \<le> turnCount (session_of (snd (dispatch env ss sid message e i)) sid)"
proof (cases i)
  case GOODBYE
  with assms show ?thesis by simp
next
  case SELECT_ROUTE
  then show ?thesis
    by (simp add: case_prod_beta handleRouteSelection_sessions turnCount_getContext)
qed (simp_all add: travel_reply_turnCount plain_sessions compare_turnCount preference_turnCount
      turnCount_updateContext)

lemma dispatch_quiet:
  assumes "i \<in> {HELP, THANKS, SELECT_ROUTE}"
  shows "turnCount (session_of (snd (dispatch env ss sid message e i)) sid)
           = turnCount (session_of ss sid)"
  using assms
  by (auto simp: case_prod_beta handleRouteSelection_sessions turnCount_getContext)

text \<open>
  Claim C4, as amended. \<^verbatim>\<open>updateContext\<close> counts every call, and a message is recorded by
  two calls, one for the user turn and one for the assistant turn. So a call of
  \<^verbatim>\<open>processMessage\<close> that returns, with an intent other than \<open>goodbye\<close>, raises the
  \<^verbatim>\<open>turnCount\<close> of the session by at least two, and by exactly two when the intent is
  \<open>help\<close>, \<open>thanks\<close> or \<open>select_route\<close>.
\<close>

theorem processMessage_turnCount:
  assumes "turn_intent env sid message w \<noteq> GOODBYE"
    and "processMessage env sid message w = Inr (res, w')"
  shows "turnCount (session_of (sessions w) sid) + 2 \<le> turnCount (session_of (sessions w') sid)
       \<and> (turn_intent env sid message w \<in> {HELP, THANKS, SELECT_ROUTE}
            \<longrightarrow> turnCount (session_of (sessions w') sid)
                  = turnCount (session_of (sessions w) sid) + 2)"
proof -
  let ?ss = "after_user_turn env sid message w"
  let ?d = "dispatch env ?ss sid message (turn_entities env sid message w)
              (turn_intent env sid message w)"
  obtain out ss where D: "?d = (out, ss)" by (cases ?d)
  show ?thesis
  proof (cases out)
    case (Inl err)
    with processMessage_throws [OF D [unfolded Inl]] assms(2) show ?thesis by simp
  next
    case (Inr b)
    obtain response routes where b: "b = (response, routes)" by (cases b)
    from processMessage_returns [OF D [unfolded Inr b]] assms(2)
    have w': "sessions w' = snd (updateContext ss sid
                (no_updates\<lparr>upd_message := Some (assistant_turn env response)\<rparr>))"
      by auto
    have ss: "ss = snd ?d" using D by simp
    have grow: "turnCount (session_of ?ss sid) \<le> turnCount (session_of ss sid)"
      unfolding ss using assms(1) by (rule dispatch_turnCount)
    have quiet: "turnCount (session_of ss sid) = turnCount (session_of ?ss sid)"
      if "turn_intent env sid message w \<in> {HELP, THANKS, SELECT_ROUTE}"
      unfolding ss using that by (rule dispatch_quiet)
    show ?thesis
      using grow quiet by (auto simp: w' reply_fields after_user_turn_fields)
  qed
qed

lemma help_intent: "turn_intent working_env ''s1'' ''help'' fresh_world = HELP"
  by code_simp

theorem processMessage_turnCount_witness:
  "turn_intent working_env ''s1'' ''help'' fresh_world \<noteq> GOODBYE
   \<and> (\<exists>res w'. processMessage working_env ''s1'' ''help'' fresh_world = Inr (res, w')
         \<and> turnCount (session_of (sessions w') ''s1'')
             = turnCount (session_of (sessions fresh_world) ''s1'') + 2)"
proof -
  let ?ss = "after_user_turn working_env ''s1'' ''help'' fresh_world"
  have h1: "turn_intent working_env ''s1'' ''help'' fresh_world \<noteq> GOODBYE"
    by (simp add: help_intent)
  have "dispatch working_env ?ss ''s1'' ''help'' (turn_entities working_env ''s1'' ''help'' fresh_world)
          (turn_intent working_env ''s1'' ''help'' fresh_world) = (Inr (Help, None), ?ss)"
    by (simp add: help_intent)
  from processMessage_returns [OF this] obtain res w'
    where h2: "processMessage working_env ''s1'' ''help'' fresh_world = Inr (res, w')"
    by blast
  from processMessage_turnCount [OF h1 h2] help_intent
  have "turnCount (session_of (sessions w') ''s1'')
          = turnCount (session_of (sessions fresh_world) ''s1'') + 2"
    by simp
  with h1 h2 show ?thesis by blast
qed

text \<open>
  Claim C4, as stated, fails: in a new session the message "help" takes \<^verbatim>\<open>turnCount\<close>
  from 0 to 2.
\<close>

lemma help_counts_two:
  "turnCount (session_of (sessions (world_after (processMessage working_env ''s1'' ''help'' fresh_world)))
      ''s1'') = 2"
  by code_simp

lemma new_session_counts_zero: "turnCount (session_of (sessions fresh_world) ''s1'') = 0"
  by (simp add: fresh_world_def session_of_def getContext_def new_session_def)

theorem processMessage_turnCount_counterexample:
  "turnCount (session_of (sessions (world_after (processMessage working_env ''s1'' ''help'' fresh_world)))
      ''s1'')
     \<noteq> turnCount (session_of (sessions fresh_world) ''s1'') + 1"
  by (simp add: help_counts_two new_session_counts_zero)

text \<open>
  Claim C5 at the message "bye" in a session that has had one exchange: the intent is
  \<open>goodbye\<close> and the session is deleted, but the update that records the assistant turn
  creates it again. When \<^verbatim>\<open>processMessage\<close> returns, the session is stored with
  \<^verbatim>\<open>turnCount\<close> 1 and the goodbye reply as its history; the entities, \<^verbatim>\<open>lastIntent\<close>,
  \<^verbatim>\<open>lastRoutes\<close> and the phase are those of a new session.
\<close>

theorem goodbye_session_recreated:
  "turn_intent working_env ''s1'' ''bye'' chatting_world = GOODBYE
   \<and> map_option (\<lambda>s. (turnCount s, history s, lastIntent s, lastRoutes s, state s, entities s ''mode''))
        (sessions (world_after (processMessage working_env ''s1'' ''bye'' chatting_world)) ''s1'')
       = Some (1, [assistant_turn working_env (Goodbye 0)], None, None, idle, None)"
  by code_simp

end
